theory Spec2Isabelle
  imports Main
begin

section \<open>The map editor of \<^verbatim>\<open>src/App.js\<close>\<close>

text \<open>
  \<^verbatim>\<open>App.js\<close> is one React component over OpenLayers objects. The component's state
  variables (\<^verbatim>\<open>useState\<close>, \<^verbatim>\<open>useRef\<close>) are the fields of the record \<open>app\<close>. The
  OpenLayers objects it creates are mutable and are shared by reference (a layer is both
  in \<^verbatim>\<open>geoJsonLayers\<close> and in the map's layer collection; a feature is both in the
  vector source and in a Translate interaction's feature array), so they live in explicit
  heaps indexed by references, and every \<^verbatim>\<open>new\<close> takes the next unused reference.

  OpenLayers itself is a library outside the repository. Of its classes only the
  operations \<^verbatim>\<open>App.js\<close> calls are modelled, by their documented contract: a collection
  is a list, \<^verbatim>\<open>addLayer\<close>/\<^verbatim>\<open>addInteraction\<close> push at the end, \<^verbatim>\<open>removeLayer\<close>/
  \<^verbatim>\<open>removeInteraction\<close> remove the given object, \<^verbatim>\<open>clear\<close> empties the collection, a new
  layer is visible, and a Draw interaction with a \<^verbatim>\<open>source\<close> option adds the finished
  feature to that source. The map's default interactions (pan, zoom) and its view are
  not modelled: no handler of \<^verbatim>\<open>App.js\<close> reads or removes them.
\<close>

subsection \<open>Values and objects\<close>

type_synonym ref = nat

datatype js_error = TypeError | ReadError

text \<open>The values held by style fields: \<^verbatim>\<open>undefined\<close>, a number, or a string.\<close>

datatype js_value = Undefined | Num int | Str string

record ol_fill =
  fill_color :: js_value

record ol_stroke =
  stroke_color :: js_value
  stroke_width :: js_value

record ol_style =
  fill :: "ol_fill option"
  stroke :: "ol_stroke option"

text \<open>
  \<^verbatim>\<open>layerType\<close> only ever receives the values of the two menu items, \<^verbatim>\<open>'osm'\<close> and
  \<^verbatim>\<open>'satellite'\<close>.
\<close>

datatype layer_type = osm | satellite

datatype tile_source = OSM | XYZ string

datatype layer_kind = TileLayer tile_source | VectorLayer ref

text \<open>
  A layer object: what it shows, its visibility, and the \<^verbatim>\<open>Style\<close> object it was given.
  \<open>style = None\<close> is a layer created without the \<^verbatim>\<open>style\<close> option (the basemap and
  freehand layers); only imported layers, which all have a \<^verbatim>\<open>Style\<close> object, are ever
  passed to \<^verbatim>\<open>handleStyleChange\<close>.
\<close>

record ol_layer =
  kind :: layer_kind
  visible :: bool
  style :: "ol_style option"

datatype geometry_type = Point | LineString | Polygon

text \<open>
  A feature: its geometry and its properties. Coordinates are opaque here (no handler
  computes with them), so they are kept as integer pairs.
\<close>

record feature =
  geometry_type_of :: geometry_type
  coordinates :: "(int \<times> int) list"
  properties :: "(string \<times> string) list"

text \<open>
  The three interactions of \<^verbatim>\<open>ol/interaction\<close> the component installs, with the
  options it passes: \<^verbatim>\<open>Draw({source, type})\<close>, \<^verbatim>\<open>Modify({source})\<close> and
  \<^verbatim>\<open>Translate({features})\<close>, the latter holding the array of feature references it was
  given.
\<close>

datatype interaction = Draw ref geometry_type | Modify ref | Translate "ref list"

record ol_map =
  layers :: "ref list"
  interactions :: "ref list"

subsection \<open>The component state and the heaps\<close>

text \<open>
  \<open>map_obj\<close> is the state variable \<^verbatim>\<open>map\<close> (\<^verbatim>\<open>null\<close> until the mount effect has run),
  \<open>vectorSource\<close> the reference held by \<^verbatim>\<open>vectorSource.current\<close>. The state variable
  \<^verbatim>\<open>activeLayer\<close> is never read or written by the component and is left out.

  \<open>pending\<close> is not a state variable: it holds the \<^verbatim>\<open>FileReader\<close> callbacks that have been
  created and have not run yet, each as the \<^verbatim>\<open>geoJsonLayers\<close> array its closure captured
  and the text of its file. Reading a file is asynchronous, so other events can come
  between the creation of a callback and its run.
\<close>

record app =
  map_obj :: "ol_map option"
  layerType :: layer_type
  drawInteraction :: "ref option"
  vectorSource :: ref
  geoJsonLayers :: "ref list"
  showAllLayers :: bool
  layer_heap :: "ref \<Rightarrow> ol_layer option"
  source_heap :: "ref \<Rightarrow> ref list option"
  interaction_heap :: "ref \<Rightarrow> interaction option"
  feature_heap :: "ref \<Rightarrow> feature option"
  next_ref :: ref
  pending :: "(ref list \<times> string) list"

definition new_layer :: "ol_layer \<Rightarrow> app \<Rightarrow> ref \<times> app" where
  "new_layer ly st =
     (next_ref st,
      st\<lparr>layer_heap := (layer_heap st)(next_ref st \<mapsto> ly), next_ref := Suc (next_ref st)\<rparr>)"

definition new_source :: "ref list \<Rightarrow> app \<Rightarrow> ref \<times> app" where
  "new_source fs st =
     (next_ref st,
      st\<lparr>source_heap := (source_heap st)(next_ref st \<mapsto> fs), next_ref := Suc (next_ref st)\<rparr>)"

definition new_interaction :: "interaction \<Rightarrow> app \<Rightarrow> ref \<times> app" where
  "new_interaction i st =
     (next_ref st,
      st\<lparr>interaction_heap := (interaction_heap st)(next_ref st \<mapsto> i),
         next_ref := Suc (next_ref st)\<rparr>)"

definition new_feature :: "feature \<Rightarrow> app \<Rightarrow> ref \<times> app" where
  "new_feature f st =
     (next_ref st,
      st\<lparr>feature_heap := (feature_heap st)(next_ref st \<mapsto> f), next_ref := Suc (next_ref st)\<rparr>)"

text \<open>The feature objects of a parsed feature list, allocated in order.\<close>

fun new_features :: "feature list \<Rightarrow> app \<Rightarrow> ref list \<times> app" where
  "new_features [] st = ([], st)"
| "new_features (f # fs) st =
     (let (r, st1) = new_feature f st;
          (rs, st2) = new_features fs st1
      in (r # rs, st2))"

subsection \<open>The OpenLayers operations used\<close>

definition addLayer :: "ref \<Rightarrow> ol_map \<Rightarrow> ol_map" where
  "addLayer l m = m\<lparr>layers := layers m @ [l]\<rparr>"

definition removeLayer :: "ref \<Rightarrow> ol_map \<Rightarrow> ol_map" where
  "removeLayer l m = m\<lparr>layers := remove1 l (layers m)\<rparr>"

definition clearLayers :: "ol_map \<Rightarrow> ol_map" where
  "clearLayers m = m\<lparr>layers := []\<rparr>"

definition addInteraction :: "ref \<Rightarrow> ol_map \<Rightarrow> ol_map" where
  "addInteraction i m = m\<lparr>interactions := interactions m @ [i]\<rparr>"

definition removeInteraction :: "ref \<Rightarrow> ol_map \<Rightarrow> ol_map" where
  "removeInteraction i m = m\<lparr>interactions := remove1 i (interactions m)\<rparr>"

text \<open>\<^verbatim>\<open>source.getFeatures()\<close>: a fresh array of the source's features.\<close>

definition getFeatures :: "app \<Rightarrow> ref \<Rightarrow> ref list" where
  "getFeatures st s = (case source_heap st s of None \<Rightarrow> [] | Some fs \<Rightarrow> fs)"

definition addFeature :: "ref \<Rightarrow> ref \<Rightarrow> app \<Rightarrow> app" where
  "addFeature s f st = st\<lparr>source_heap := (source_heap st)(s \<mapsto> getFeatures st s @ [f])\<rparr>"

definition getVisible :: "app \<Rightarrow> ref \<Rightarrow> bool" where
  "getVisible st l = (case layer_heap st l of None \<Rightarrow> False | Some ly \<Rightarrow> visible ly)"

definition setVisible :: "ref \<Rightarrow> bool \<Rightarrow> app \<Rightarrow> app" where
  "setVisible l v st =
     (case layer_heap st l of
        None \<Rightarrow> st
      | Some ly \<Rightarrow> st\<lparr>layer_heap := (layer_heap st)(l \<mapsto> ly\<lparr>visible := v\<rparr>)\<rparr>)"

definition getStyle :: "app \<Rightarrow> ref \<Rightarrow> ol_style option" where
  "getStyle st l = (case layer_heap st l of None \<Rightarrow> None | Some ly \<Rightarrow> style ly)"

definition setStyle :: "ref \<Rightarrow> ol_style \<Rightarrow> app \<Rightarrow> app" where
  "setStyle l s st =
     (case layer_heap st l of
        None \<Rightarrow> st
      | Some ly \<Rightarrow> st\<lparr>layer_heap := (layer_heap st)(l \<mapsto> ly\<lparr>style := Some s\<rparr>)\<rparr>)"

text \<open>\<^verbatim>\<open>new Style()\<close>, \<^verbatim>\<open>new Stroke()\<close>, \<^verbatim>\<open>new Fill()\<close> without options.\<close>

definition new_Style :: ol_style where
  "new_Style = \<lparr>fill = None, stroke = None\<rparr>"

definition new_Stroke :: ol_stroke where
  "new_Stroke = \<lparr>stroke_color = Undefined, stroke_width = Undefined\<rparr>"

definition new_Fill :: ol_fill where
  "new_Fill = \<lparr>fill_color = Undefined\<rparr>"

subsection \<open>Initial state and effects\<close>

text \<open>
  The initial values of the state variables (lines 15 to 22); \<^verbatim>\<open>new VectorSource()\<close> of
  line 19 is the object at reference 0.
\<close>

definition initial :: app where
  "initial =
     \<lparr>map_obj = None, layerType = osm, drawInteraction = None, vectorSource = 0,
      geoJsonLayers = [], showAllLayers = True,
      layer_heap = (\<lambda>_. None), source_heap = ((\<lambda>_. None)(0 \<mapsto> [])),
      interaction_heap = (\<lambda>_. None), feature_heap = (\<lambda>_. None), next_ref = 1,
      pending = []\<rparr>"

text \<open>The mount effect (lines 24 to 45).\<close>

definition mount_effect :: "app \<Rightarrow> app" where
  "mount_effect st =
     (let (t, st1) = new_layer \<lparr>kind = TileLayer OSM, visible = True, style = None\<rparr> st;
          initialMap = \<lparr>layers = [t], interactions = []\<rparr>;
          (vectorLayer, st2) =
             new_layer \<lparr>kind = VectorLayer (vectorSource st), visible = True, style = None\<rparr> st1
      in st2\<lparr>map_obj := Some (addLayer vectorLayer initialMap)\<rparr>)"

text \<open>
  The layer effect (lines 47 to 72), run after a render in which \<^verbatim>\<open>layerType\<close>, \<^verbatim>\<open>map\<close>
  or \<^verbatim>\<open>geoJsonLayers\<close> changed.
\<close>

definition tile_of :: "layer_type \<Rightarrow> tile_source" where
  "tile_of lt =
     (case lt of
        osm \<Rightarrow> OSM
      | satellite \<Rightarrow>
          XYZ ''https://services.arcgisonline.com/arcgis/rest/services/World_Imagery/MapServer/tile/{z}/{y}/{x}'')"

definition layer_effect :: "app \<Rightarrow> app" where
  "layer_effect st =
     (case map_obj st of
        None \<Rightarrow> st
      | Some m \<Rightarrow>
          (let (newLayer, st1) =
                 new_layer \<lparr>kind = TileLayer (tile_of (layerType st)), visible = True, style = None\<rparr> st;
               m1 = addLayer newLayer (clearLayers m);
               (v, st2) =
                 new_layer \<lparr>kind = VectorLayer (vectorSource st), visible = True, style = None\<rparr> st1;
               m2 = addLayer v m1;
               m3 = foldl (\<lambda>m' layer. addLayer layer m') m2 (geoJsonLayers st)
           in st2\<lparr>map_obj := Some m3\<rparr>))"

text \<open>
  The component as the user meets it: mounted, \<^verbatim>\<open>setMap\<close> has caused the second render
  and the layer effect has run once.
\<close>

definition mounted :: app where
  "mounted = layer_effect (mount_effect initial)"

subsection \<open>The handlers\<close>

text \<open>\<^verbatim>\<open>handleLayerChange\<close> (lines 74 to 76).\<close>

definition handleLayerChange :: "layer_type \<Rightarrow> app \<Rightarrow> app" where
  "handleLayerChange v st = st\<lparr>layerType := v\<rparr>"

text \<open>
  \<^verbatim>\<open>addDrawInteraction\<close> (lines 78 to 101), up to the registration of the
  \<^verbatim>\<open>drawend\<close> listener, which is \<open>drawend_listener\<close> below.
\<close>

definition addDrawInteraction :: "geometry_type \<Rightarrow> app \<Rightarrow> app" where
  "addDrawInteraction ty st =
     (case map_obj st of
        None \<Rightarrow> st
      | Some m \<Rightarrow>
          (let m1 = (case drawInteraction st of
                       Some d \<Rightarrow> removeInteraction d m
                     | None \<Rightarrow> m);
               (draw, st1) = new_interaction (Draw (vectorSource st) ty) st
           in st1\<lparr>map_obj := Some (addInteraction draw m1), drawInteraction := Some draw\<rparr>))"

text \<open>
  The listener of lines 93 to 97, for the Draw interaction \<open>draw\<close> it was registered on.
  The map it captured is not \<^verbatim>\<open>null\<close> (line 79) and is the one map object there is.
\<close>

definition drawend_listener :: "ref \<Rightarrow> app \<Rightarrow> app" where
  "drawend_listener draw st =
     (case map_obj st of
        None \<Rightarrow> st
      | Some m \<Rightarrow> st\<lparr>map_obj := Some (removeInteraction draw m), drawInteraction := None\<rparr>)"

text \<open>
  The user finishes a shape with the Draw interaction \<open>draw\<close>. Only an interaction that
  is installed on the map receives pointer events. OpenLayers then creates the feature,
  calls the \<^verbatim>\<open>drawend\<close> listeners and adds the feature to the interaction's source.
\<close>

definition installed :: "app \<Rightarrow> ref list" where
  "installed st = (case map_obj st of None \<Rightarrow> [] | Some m \<Rightarrow> interactions m)"

definition finishDrawing :: "ref \<Rightarrow> (int \<times> int) list \<Rightarrow> app \<Rightarrow> app" where
  "finishDrawing draw coords st =
     (if draw \<in> set (installed st) then
        (case interaction_heap st draw of
           Some (Draw s ty) \<Rightarrow>
             (let (f, st1) =
                    new_feature
                      \<lparr>geometry_type_of = ty, coordinates = coords, properties = []\<rparr> st;
                  st2 = drawend_listener draw st1
              in addFeature s f st2)
         | _ \<Rightarrow> st)
      else st)"

text \<open>
  \<^verbatim>\<open>reader.onload\<close> inside \<^verbatim>\<open>handleGeoJSONImport\<close> (lines 107 to 129). The callback
  runs when the file has been read; \<open>captured\<close> is the value of \<^verbatim>\<open>geoJsonLayers\<close> in the
  render that created the callback (the \<^verbatim>\<open>map\<close> captured with it is the one map object
  there is). \<open>readFeatures\<close> is OpenLayers' GeoJSON parser with
  the option \<^verbatim>\<open>featureProjection: 'EPSG:3857'\<close>, a parameter of the model: it returns the
  parsed features or throws.
\<close>

definition default_style :: ol_style where
  "default_style =
     \<lparr>fill = Some \<lparr>fill_color = Str ''rgba(255, 255, 255, 0.6)''\<rparr>,
      stroke = Some \<lparr>stroke_color = Str ''#319FD3'', stroke_width = Num 1\<rparr>\<rparr>"

definition reader_onload ::
  "(string \<Rightarrow> js_error + feature list) \<Rightarrow> ref list \<Rightarrow> string \<Rightarrow> app \<Rightarrow> js_error + app" where
  "reader_onload readFeatures captured geojsonData st =
     (case readFeatures geojsonData of
        Inl e \<Rightarrow> Inl e
      | Inr features \<Rightarrow>
          (let (fs, st1) = new_features features st;
               (geoJsonVectorSource, st2) = new_source fs st1;
               (newGeoJsonLayer, st3) =
                 new_layer
                   \<lparr>kind = VectorLayer geoJsonVectorSource, visible = True,
                    style = Some default_style\<rparr> st2
           in case map_obj st3 of
                None \<Rightarrow> Inl TypeError
              | Some m \<Rightarrow>
                  Inr (st3\<lparr>map_obj := Some (addLayer newGeoJsonLayer m),
                           geoJsonLayers := captured @ [newGeoJsonLayer]\<rparr>)))"

text \<open>
  \<^verbatim>\<open>handleGeoJSONImport\<close> (lines 103 to 132) itself: with a file chosen it creates the
  reader, whose callback closes over the \<^verbatim>\<open>geoJsonLayers\<close> of this render, starts the
  read and returns; without a file it does nothing.
\<close>

definition handleGeoJSONImport :: "string option \<Rightarrow> app \<Rightarrow> app" where
  "handleGeoJSONImport file st =
     (case file of
        None \<Rightarrow> st
      | Some data \<Rightarrow> st\<lparr>pending := pending st @ [(geoJsonLayers st, data)]\<rparr>)"

text \<open>\<^verbatim>\<open>handleShowHideAll\<close> (lines 134 to 139).\<close>

definition handleShowHideAll :: "app \<Rightarrow> app" where
  "handleShowHideAll st =
     (let st1 = foldl (\<lambda>s layer. setVisible layer (\<not> showAllLayers st) s) st (geoJsonLayers st)
      in st1\<lparr>showAllLayers := \<not> showAllLayers st\<rparr>)"

text \<open>
  \<^verbatim>\<open>handleLayerAction\<close> (lines 141 to 170). \<^verbatim>\<open>'zoom'\<close> only moves the view and
  \<^verbatim>\<open>'download'\<close> only writes a file: neither changes the state modelled here.
\<close>

definition handleLayerAction :: "string \<Rightarrow> ref \<Rightarrow> app \<Rightarrow> js_error + app" where
  "handleLayerAction action layer st =
     (if action = ''zoom'' then
        (case map_obj st of None \<Rightarrow> Inl TypeError | Some m \<Rightarrow> Inr st)
      else if action = ''delete'' then
        (case map_obj st of
           None \<Rightarrow> Inl TypeError
         | Some m \<Rightarrow>
             Inr (st\<lparr>map_obj := Some (removeLayer layer m),
                     geoJsonLayers := filter (\<lambda>l. l \<noteq> layer) (geoJsonLayers st)\<rparr>))
      else if action = ''download'' then Inr st
      else if action = ''showHide'' then Inr (setVisible layer (\<not> getVisible st layer) st)
      else Inr st)"

text \<open>\<^verbatim>\<open>handleModifyFeatures\<close> (lines 172 to 175).\<close>

definition handleModifyFeatures :: "app \<Rightarrow> js_error + app" where
  "handleModifyFeatures st =
     (let (modify, st1) = new_interaction (Modify (vectorSource st)) st
      in case map_obj st1 of
           None \<Rightarrow> Inl TypeError
         | Some m \<Rightarrow> Inr (st1\<lparr>map_obj := Some (addInteraction modify m)\<rparr>))"

text \<open>\<^verbatim>\<open>handleTranslateFeatures\<close> (lines 177 to 180).\<close>

definition handleTranslateFeatures :: "app \<Rightarrow> js_error + app" where
  "handleTranslateFeatures st =
     (let (translate, st1) =
            new_interaction (Translate (getFeatures st (vectorSource st))) st
      in case map_obj st1 of
           None \<Rightarrow> Inl TypeError
         | Some m \<Rightarrow> Inr (st1\<lparr>map_obj := Some (addInteraction translate m)\<rparr>))"

text \<open>
  \<^verbatim>\<open>handleStyleChange\<close> (lines 182 to 194). \<open>v\<close> is the string \<^verbatim>\<open>e.target.value\<close> of the
  input element. The three \<^verbatim>\<open>||\<close> fall back to a new object where the getter returns
  nothing. Every layer gets a \<^verbatim>\<open>Style\<close>, \<^verbatim>\<open>Fill\<close> and \<^verbatim>\<open>Stroke\<close> object of its own on
  import and no object is shared between layers, so the style is kept inside the layer
  object.
\<close>

definition handleStyleChange :: "ref \<Rightarrow> string \<Rightarrow> string \<Rightarrow> app \<Rightarrow> app" where
  "handleStyleChange layer property v st =
     (let layerStyle = (case getStyle st layer of None \<Rightarrow> new_Style | Some s \<Rightarrow> s);
          stroke0 = (case stroke layerStyle of None \<Rightarrow> new_Stroke | Some s \<Rightarrow> s);
          fill0 = (case fill layerStyle of None \<Rightarrow> new_Fill | Some f \<Rightarrow> f);
          stroke1 = (if property = ''color'' then stroke0\<lparr>stroke_color := Str v\<rparr> else stroke0);
          stroke2 = (if property = ''strokeWidth'' then stroke1\<lparr>stroke_width := Str v\<rparr>
                     else stroke1);
          fill1 = (if property = ''fillOpacity''
                   then fill0\<lparr>fill_color := Str (''rgba(255, 255, 255, '' @ v @ '')'')\<rparr>
                   else fill0)
      in setStyle layer (layerStyle\<lparr>stroke := Some stroke2, fill := Some fill1\<rparr>) st)"

subsection \<open>Events\<close>

text \<open>
  One user action or browser event each: a click on a button, a finished shape, a file
  chosen (or the file dialog left without one), the end of the reading of a chosen file
  (the \<open>k\<close>-th callback that has not run yet), a change of an input element.
\<close>

datatype event =
    LayerChange layer_type
  | DrawButton geometry_type
  | DrawEnd ref "(int \<times> int) list"
  | ModifyButton
  | TranslateButton
  | FilePicked "string option"
  | FileLoaded nat
  | ShowHideAll
  | LayerAction string ref
  | StyleChange ref string string

text \<open>
  An event runs its handler; an exception thrown by a handler leaves the state as it
  was (each handler throws before its first write). React then renders again and runs
  the layer effect when one of its dependencies changed: \<^verbatim>\<open>layerType\<close> by value,
  \<^verbatim>\<open>geoJsonLayers\<close> whenever it is set (spread and \<^verbatim>\<open>filter\<close> always make a new array).

  A reader's callback runs once, with the array it captured, in the state of the moment
  it runs. The buttons and inputs of a layer (lines 295 to 329) are rendered for the
  entries of \<^verbatim>\<open>geoJsonLayers\<close> only, so \<^verbatim>\<open>handleLayerAction\<close> and \<^verbatim>\<open>handleStyleChange\<close>
  are called with layers of the registry and no others: an event that names another
  layer does not happen.
\<close>

definition or_unchanged :: "app \<Rightarrow> js_error + app \<Rightarrow> app" where
  "or_unchanged st r = (case r of Inl e \<Rightarrow> st | Inr st' \<Rightarrow> st')"

definition remove_pending :: "nat \<Rightarrow> app \<Rightarrow> app" where
  "remove_pending k st = st\<lparr>pending := take k (pending st) @ drop (Suc k) (pending st)\<rparr>"

definition run_callback ::
  "(string \<Rightarrow> js_error + feature list) \<Rightarrow> ref list \<Rightarrow> string \<Rightarrow> app \<Rightarrow> app" where
  "run_callback rf captured data st =
     (case reader_onload rf captured data st of
        Inl e \<Rightarrow> st
      | Inr st' \<Rightarrow> layer_effect st')"

fun step :: "(string \<Rightarrow> js_error + feature list) \<Rightarrow> app \<Rightarrow> event \<Rightarrow> app" where
  "step rf st (LayerChange v) =
     (if v = layerType st then st else layer_effect (handleLayerChange v st))"
| "step rf st (DrawButton ty) = addDrawInteraction ty st"
| "step rf st (DrawEnd d coords) = finishDrawing d coords st"
| "step rf st ModifyButton = or_unchanged st (handleModifyFeatures st)"
| "step rf st TranslateButton = or_unchanged st (handleTranslateFeatures st)"
| "step rf st (FilePicked file) = handleGeoJSONImport file st"
| "step rf st (FileLoaded k) =
     (if k < length (pending st)
      then run_callback rf (fst (pending st ! k)) (snd (pending st ! k)) (remove_pending k st)
      else st)"
| "step rf st ShowHideAll = handleShowHideAll st"
| "step rf st (LayerAction action layer) =
     (if layer \<in> set (geoJsonLayers st) then
        (case handleLayerAction action layer st of
           Inl e \<Rightarrow> st
         | Inr st' \<Rightarrow> if action = ''delete'' then layer_effect st' else st')
      else st)"
| "step rf st (StyleChange layer property v) =
     (if layer \<in> set (geoJsonLayers st) then handleStyleChange layer property v st else st)"

definition run :: "(string \<Rightarrow> js_error + feature list) \<Rightarrow> app \<Rightarrow> event list \<Rightarrow> app" where
  "run rf st evs = foldl (step rf) st evs"

subsection \<open>Observations\<close>

text \<open>What the properties below read off a state.\<close>

definition is_Draw :: "interaction option \<Rightarrow> bool" where
  "is_Draw i = (case i of Some (Draw s ty) \<Rightarrow> True | _ \<Rightarrow> False)"

definition draws :: "app \<Rightarrow> ref list" where
  "draws st = filter (\<lambda>i. is_Draw (interaction_heap st i)) (installed st)"

definition tracked :: "app \<Rightarrow> ref list" where
  "tracked st = (case drawInteraction st of None \<Rightarrow> [] | Some d \<Rightarrow> [d])"

definition map_layers :: "app \<Rightarrow> ref list" where
  "map_layers st = (case map_obj st of None \<Rightarrow> [] | Some m \<Rightarrow> layers m)"

definition kind_of :: "app \<Rightarrow> ref \<Rightarrow> layer_kind option" where
  "kind_of st l = map_option kind (layer_heap st l)"

definition layers_ok :: "app \<Rightarrow> bool" where
  "layers_ok st =
     (case map_layers st of
        t # f # rest \<Rightarrow>
          kind_of st t = Some (TileLayer (tile_of (layerType st))) \<and>
          kind_of st f = Some (VectorLayer (vectorSource st)) \<and>
          rest = geoJsonLayers st
      | _ \<Rightarrow> False)"

text \<open>
  The colours and the width of a layer's style, \<open>Undefined\<close> where the layer has no
  style, fill or stroke object.
\<close>

definition fillColor :: "app \<Rightarrow> ref \<Rightarrow> js_value" where
  "fillColor st l =
     (case getStyle st l of
        None \<Rightarrow> Undefined
      | Some s \<Rightarrow> (case fill s of None \<Rightarrow> Undefined | Some f \<Rightarrow> fill_color f))"

definition strokeColor :: "app \<Rightarrow> ref \<Rightarrow> js_value" where
  "strokeColor st l =
     (case getStyle st l of
        None \<Rightarrow> Undefined
      | Some s \<Rightarrow> (case stroke s of None \<Rightarrow> Undefined | Some k \<Rightarrow> stroke_color k))"

definition strokeWidth :: "app \<Rightarrow> ref \<Rightarrow> js_value" where
  "strokeWidth st l =
     (case getStyle st l of
        None \<Rightarrow> Undefined
      | Some s \<Rightarrow> (case stroke s of None \<Rightarrow> Undefined | Some k \<Rightarrow> stroke_width k))"

text \<open>The interaction objects installed on the map, in order.\<close>

definition installed_kinds :: "app \<Rightarrow> interaction option list" where
  "installed_kinds st = map (interaction_heap st) (installed st)"

text \<open>
  OpenLayers' Translate interaction, given the \<^verbatim>\<open>features\<close> option, picks up a feature
  under the pointer only if that feature is contained in the collection it was
  constructed with, and only while the interaction is installed on the map. So \<open>f\<close> can
  be dragged through the interaction \<open>t\<close> at most when \<open>translatable st t f\<close> holds.
\<close>

definition translatable :: "app \<Rightarrow> ref \<Rightarrow> ref \<Rightarrow> bool" where
  "translatable st t f =
     (t \<in> set (installed st) \<and>
      (case interaction_heap st t of Some (Translate fs) \<Rightarrow> f \<in> set fs | _ \<Rightarrow> False))"

text \<open>What a later state keeps of an earlier one.\<close>

definition kept :: "app \<Rightarrow> app \<Rightarrow> bool" where
  "kept st st' \<longleftrightarrow>
     next_ref st \<le> next_ref st' \<and>
     vectorSource st' = vectorSource st \<and>
     (\<forall>i<next_ref st. interaction_heap st' i = interaction_heap st i) \<and>
     (\<forall>t\<in>set (installed st). \<not> is_Draw (interaction_heap st t) \<longrightarrow> t \<in> set (installed st')) \<and>
     set (getFeatures st (vectorSource st)) \<subseteq> set (getFeatures st' (vectorSource st))"

text \<open>Invariants of the states reached from \<open>mounted\<close>.\<close>

definition inv_alloc :: "app \<Rightarrow> bool" where
  "inv_alloc st \<longleftrightarrow>
     map_obj st \<noteq> None \<and>
     (\<forall>i\<in>set (installed st). i < next_ref st) \<and>
     (\<forall>l\<in>set (geoJsonLayers st). l < next_ref st) \<and>
     (\<forall>p\<in>set (pending st). \<forall>l\<in>set (fst p). l < next_ref st) \<and>
     vectorSource st < next_ref st \<and>
     source_heap st (vectorSource st) \<noteq> None \<and>
     (\<forall>f\<in>set (getFeatures st (vectorSource st)). f < next_ref st)"

definition inv_draw :: "app \<Rightarrow> bool" where
  "inv_draw st \<longleftrightarrow>
     draws st = tracked st \<and>
     (\<forall>d s ty. interaction_heap st d = Some (Draw s ty) \<longrightarrow> s = vectorSource st)"

definition heap_fresh :: "app \<Rightarrow> bool" where
  "heap_fresh st \<longleftrightarrow> (\<forall>l\<ge>next_ref st. layer_heap st l = None)"

text \<open>An imported layer: a vector layer over a source of its own.\<close>

definition is_imported :: "app \<Rightarrow> ref \<Rightarrow> bool" where
  "is_imported st l =
     (case kind_of st l of Some (VectorLayer s) \<Rightarrow> s \<noteq> vectorSource st | _ \<Rightarrow> False)"

definition inv_layers :: "app \<Rightarrow> bool" where
  "inv_layers st \<longleftrightarrow>
     layers_ok st \<and> (\<forall>l\<in>set (geoJsonLayers st). is_imported st l) \<and>
     (\<forall>p\<in>set (pending st). \<forall>l\<in>set (fst p). is_imported st l)"

text \<open>The state a successful \<open>reader_onload\<close> returns, written out.\<close>

definition import_result :: "ref list \<Rightarrow> feature list \<Rightarrow> ol_map \<Rightarrow> app \<Rightarrow> app" where
  "import_result captured fs m st =
     st\<lparr>feature_heap := feature_heap (snd (new_features fs st)),
        next_ref := Suc (Suc (next_ref st + length fs)),
        source_heap := (source_heap st)
          (next_ref st + length fs \<mapsto> [next_ref st ..< next_ref st + length fs]),
        layer_heap := (layer_heap st)
          (Suc (next_ref st + length fs) \<mapsto>
             \<lparr>kind = VectorLayer (next_ref st + length fs), visible = True,
              style = Some default_style\<rparr>),
        map_obj := Some (m\<lparr>layers := layers m @ [Suc (next_ref st + length fs)]\<rparr>),
        geoJsonLayers := captured @ [Suc (next_ref st + length fs)]\<rparr>"

text \<open>
  A concrete parser result and the state after one import, for the examples: the file
  holds one polygon with the property \<^verbatim>\<open>name\<close>.
\<close>

definition sample_features :: "feature list" where
  "sample_features =
     [\<lparr>geometry_type_of = Polygon, coordinates = [(0, 0), (4, 0), (4, 3), (0, 0)],
       properties = [(''name'', ''A'')]\<rparr>]"

definition sample_readFeatures :: "string \<Rightarrow> js_error + feature list" where
  "sample_readFeatures data = (if data = [] then Inl ReadError else Inr sample_features)"

definition imported :: app where
  "imported = run sample_readFeatures mounted [FilePicked (Some ''A''), FileLoaded 0]"

text \<open>The state after the buttons Draw Point, Modify and Translate.\<close>

definition edited :: app where
  "edited = run sample_readFeatures mounted [DrawButton Point, ModifyButton, TranslateButton]"

section \<open>Lemmas\<close>

subsection \<open>Primitive operations\<close>

lemma foldl_addLayer: "foldl (\<lambda>m' l. addLayer l m') m ls = m\<lparr>layers := layers m @ ls\<rparr>"
  by (induction ls arbitrary: m) (simp_all add: addLayer_def)

lemma layer_effect_cases:
  "(map_obj st = None \<and> layer_effect st = st) \<or>
   (\<exists>m. map_obj st = Some m \<and>
     layer_effect st =
       st\<lparr>layer_heap := (layer_heap st)
           (next_ref st \<mapsto> \<lparr>kind = TileLayer (tile_of (layerType st)), visible = True, style = None\<rparr>,
            Suc (next_ref st) \<mapsto> \<lparr>kind = VectorLayer (vectorSource st), visible = True, style = None\<rparr>),
        next_ref := Suc (Suc (next_ref st)),
        map_obj := Some (m\<lparr>layers := next_ref st # Suc (next_ref st) # geoJsonLayers st\<rparr>)\<rparr>)"
proof (cases "map_obj st")
  case None
  then show ?thesis by (simp add: layer_effect_def)
next
  case (Some m)
  then have "layer_effect st =
       st\<lparr>layer_heap := (layer_heap st)
           (next_ref st \<mapsto> \<lparr>kind = TileLayer (tile_of (layerType st)), visible = True, style = None\<rparr>,
            Suc (next_ref st) \<mapsto> \<lparr>kind = VectorLayer (vectorSource st), visible = True, style = None\<rparr>),
        next_ref := Suc (Suc (next_ref st)),
        map_obj := Some (m\<lparr>layers := next_ref st # Suc (next_ref st) # geoJsonLayers st\<rparr>)\<rparr>"
    by (simp add: layer_effect_def new_layer_def foldl_addLayer clearLayers_def)
      (simp add: addLayer_def)
  with Some show ?thesis by simp
qed

lemma layer_effect_fields [simp]:
  "installed (layer_effect st) = installed st"
  "interaction_heap (layer_effect st) = interaction_heap st"
  "drawInteraction (layer_effect st) = drawInteraction st"
  "vectorSource (layer_effect st) = vectorSource st"
  "geoJsonLayers (layer_effect st) = geoJsonLayers st"
  "source_heap (layer_effect st) = source_heap st"
  "feature_heap (layer_effect st) = feature_heap st"
  "showAllLayers (layer_effect st) = showAllLayers st"
  "layerType (layer_effect st) = layerType st"
  "pending (layer_effect st) = pending st"
  "(map_obj (layer_effect st) = None) = (map_obj st = None)"
  by (insert layer_effect_cases [of st], auto simp: installed_def)+

lemma layer_effect_next_ref: "next_ref st \<le> next_ref (layer_effect st)"
  using layer_effect_cases [of st] by auto

lemma setVisible_fields [simp]:
  "map_obj (setVisible l v st) = map_obj st"
  "interaction_heap (setVisible l v st) = interaction_heap st"
  "drawInteraction (setVisible l v st) = drawInteraction st"
  "vectorSource (setVisible l v st) = vectorSource st"
  "geoJsonLayers (setVisible l v st) = geoJsonLayers st"
  "source_heap (setVisible l v st) = source_heap st"
  "feature_heap (setVisible l v st) = feature_heap st"
  "showAllLayers (setVisible l v st) = showAllLayers st"
  "layerType (setVisible l v st) = layerType st"
  "next_ref (setVisible l v st) = next_ref st"
  "pending (setVisible l v st) = pending st"
  by (simp_all add: setVisible_def split: option.splits)

lemma setVisible_layer_heap:
  "layer_heap (setVisible l v st) k =
     (if k = l then map_option (\<lambda>ly. ly\<lparr>visible := v\<rparr>) (layer_heap st l) else layer_heap st k)"
  by (simp add: setVisible_def split: option.splits)

lemma setStyle_fields [simp]:
  "map_obj (setStyle l s st) = map_obj st"
  "interaction_heap (setStyle l s st) = interaction_heap st"
  "drawInteraction (setStyle l s st) = drawInteraction st"
  "vectorSource (setStyle l s st) = vectorSource st"
  "geoJsonLayers (setStyle l s st) = geoJsonLayers st"
  "source_heap (setStyle l s st) = source_heap st"
  "feature_heap (setStyle l s st) = feature_heap st"
  "showAllLayers (setStyle l s st) = showAllLayers st"
  "layerType (setStyle l s st) = layerType st"
  "next_ref (setStyle l s st) = next_ref st"
  "pending (setStyle l s st) = pending st"
  by (simp_all add: setStyle_def split: option.splits)

lemma setStyle_layer_heap:
  "layer_heap (setStyle l s st) k =
     (if k = l then map_option (\<lambda>ly. ly\<lparr>style := Some s\<rparr>) (layer_heap st l) else layer_heap st k)"
  by (simp add: setStyle_def split: option.splits)

lemma setAll_fields [simp]:
  "map_obj (foldl (\<lambda>s l. setVisible l v s) st ls) = map_obj st"
  "interaction_heap (foldl (\<lambda>s l. setVisible l v s) st ls) = interaction_heap st"
  "drawInteraction (foldl (\<lambda>s l. setVisible l v s) st ls) = drawInteraction st"
  "vectorSource (foldl (\<lambda>s l. setVisible l v s) st ls) = vectorSource st"
  "geoJsonLayers (foldl (\<lambda>s l. setVisible l v s) st ls) = geoJsonLayers st"
  "source_heap (foldl (\<lambda>s l. setVisible l v s) st ls) = source_heap st"
  "feature_heap (foldl (\<lambda>s l. setVisible l v s) st ls) = feature_heap st"
  "showAllLayers (foldl (\<lambda>s l. setVisible l v s) st ls) = showAllLayers st"
  "layerType (foldl (\<lambda>s l. setVisible l v s) st ls) = layerType st"
  "next_ref (foldl (\<lambda>s l. setVisible l v s) st ls) = next_ref st"
  "pending (foldl (\<lambda>s l. setVisible l v s) st ls) = pending st"
  by (induction ls arbitrary: st; simp)+

lemma setAll_layer_heap:
  "layer_heap (foldl (\<lambda>s l. setVisible l v s) st ls) k =
     (if k \<in> set ls then map_option (\<lambda>ly. ly\<lparr>visible := v\<rparr>) (layer_heap st k)
      else layer_heap st k)"
proof (induction ls arbitrary: st)
  case Nil
  then show ?case by simp
next
  case (Cons a ls)
  show ?case
    by (cases "layer_heap st k")
      (auto simp: Cons.IH setVisible_layer_heap option.map_comp comp_def)
qed

lemma new_features_fields [simp]:
  "map_obj (snd (new_features fs st)) = map_obj st"
  "interaction_heap (snd (new_features fs st)) = interaction_heap st"
  "drawInteraction (snd (new_features fs st)) = drawInteraction st"
  "vectorSource (snd (new_features fs st)) = vectorSource st"
  "geoJsonLayers (snd (new_features fs st)) = geoJsonLayers st"
  "source_heap (snd (new_features fs st)) = source_heap st"
  "layer_heap (snd (new_features fs st)) = layer_heap st"
  "showAllLayers (snd (new_features fs st)) = showAllLayers st"
  "layerType (snd (new_features fs st)) = layerType st"
  "next_ref (snd (new_features fs st)) = next_ref st + length fs"
  "pending (snd (new_features fs st)) = pending st"
  by (induction fs arbitrary: st; simp add: new_feature_def split_beta)+

lemma new_features_refs: "fst (new_features fs st) = [next_ref st ..< next_ref st + length fs]"
proof (induction fs arbitrary: st)
  case Nil
  then show ?case by simp
next
  case (Cons f fs)
  have "fst (new_features (f # fs) st) = next_ref st # [Suc (next_ref st) ..< Suc (next_ref st) + length fs]"
    by (simp add: split_beta Cons.IH) (auto simp: new_feature_def Suc_le_eq)
  also have "\<dots> = [next_ref st ..< next_ref st + length (f # fs)]"
    by (subst upt_rec [of "next_ref st"]) simp
  finally show ?case .
qed



subsection \<open>The handlers in closed form\<close>

lemma new_features_eq:
  "snd (new_features fs st) =
     st\<lparr>feature_heap := feature_heap (snd (new_features fs st)),
        next_ref := next_ref st + length fs\<rparr>"
  by (rule app.equality) simp_all

lemma addDrawInteraction_eq:
  "map_obj st = Some m \<Longrightarrow>
   addDrawInteraction ty st =
     st\<lparr>interaction_heap := (interaction_heap st)(next_ref st \<mapsto> Draw (vectorSource st) ty),
        next_ref := Suc (next_ref st),
        map_obj := Some (m\<lparr>interactions :=
          (case drawInteraction st of None \<Rightarrow> interactions m
           | Some d \<Rightarrow> remove1 d (interactions m)) @ [next_ref st]\<rparr>),
        drawInteraction := Some (next_ref st)\<rparr>"
  by (cases "drawInteraction st")
    (simp_all add: addDrawInteraction_def new_interaction_def addInteraction_def
      removeInteraction_def)

lemma finishDrawing_eq:
  "map_obj st = Some m \<Longrightarrow> d \<in> set (interactions m) \<Longrightarrow>
   interaction_heap st d = Some (Draw s ty) \<Longrightarrow>
   finishDrawing d coords st =
     st\<lparr>feature_heap := (feature_heap st)
           (next_ref st \<mapsto> \<lparr>geometry_type_of = ty, coordinates = coords, properties = []\<rparr>),
        next_ref := Suc (next_ref st),
        map_obj := Some (m\<lparr>interactions := remove1 d (interactions m)\<rparr>),
        drawInteraction := None,
        source_heap := (source_heap st)(s \<mapsto> getFeatures st s @ [next_ref st])\<rparr>"
  by (simp add: finishDrawing_def installed_def new_feature_def drawend_listener_def
      addFeature_def removeInteraction_def getFeatures_def)

lemma finishDrawing_noop:
  "\<not> (d \<in> set (installed st) \<and> is_Draw (interaction_heap st d)) \<Longrightarrow>
   finishDrawing d coords st = st"
  by (auto simp: finishDrawing_def is_Draw_def split: option.splits interaction.splits)

lemma handleModifyFeatures_eq:
  "map_obj st = Some m \<Longrightarrow>
   handleModifyFeatures st =
     Inr (st\<lparr>interaction_heap := (interaction_heap st)(next_ref st \<mapsto> Modify (vectorSource st)),
             next_ref := Suc (next_ref st),
             map_obj := Some (m\<lparr>interactions := interactions m @ [next_ref st]\<rparr>)\<rparr>)"
  by (simp add: handleModifyFeatures_def new_interaction_def addInteraction_def)

lemma handleTranslateFeatures_eq:
  "map_obj st = Some m \<Longrightarrow>
   handleTranslateFeatures st =
     Inr (st\<lparr>interaction_heap := (interaction_heap st)
                (next_ref st \<mapsto> Translate (getFeatures st (vectorSource st))),
             next_ref := Suc (next_ref st),
             map_obj := Some (m\<lparr>interactions := interactions m @ [next_ref st]\<rparr>)\<rparr>)"
  by (simp add: handleTranslateFeatures_def new_interaction_def addInteraction_def)

lemma reader_onload_eq:
  assumes "map_obj st = Some m" and "rf x = Inr fs"
  shows "reader_onload rf captured x st =
     Inr (st\<lparr>feature_heap := feature_heap (snd (new_features fs st)),
             next_ref := Suc (Suc (next_ref st + length fs)),
             source_heap := (source_heap st)
               (next_ref st + length fs \<mapsto> [next_ref st ..< next_ref st + length fs]),
             layer_heap := (layer_heap st)
               (Suc (next_ref st + length fs) \<mapsto>
                  \<lparr>kind = VectorLayer (next_ref st + length fs), visible = True,
                   style = Some default_style\<rparr>),
             map_obj := Some (m\<lparr>layers := layers m @ [Suc (next_ref st + length fs)]\<rparr>),
             geoJsonLayers := captured @ [Suc (next_ref st + length fs)]\<rparr>)"
proof -
  obtain rs st1 where n: "new_features fs st = (rs, st1)"
    by (cases "new_features fs st")
  have rs: "rs = [next_ref st ..< next_ref st + length fs]"
    using new_features_refs [of fs st] n by simp
  have st1: "st1 = st\<lparr>feature_heap := feature_heap (snd (new_features fs st)),
        next_ref := next_ref st + length fs\<rparr>"
    using new_features_eq [of fs st] n by simp
  have "reader_onload rf captured x st =
      (let (geoJsonVectorSource, st2) = new_source rs st1;
           (newGeoJsonLayer, st3) =
             new_layer \<lparr>kind = VectorLayer geoJsonVectorSource, visible = True,
                        style = Some default_style\<rparr> st2
       in case map_obj st3 of
            None \<Rightarrow> Inl TypeError
          | Some m \<Rightarrow>
              Inr (st3\<lparr>map_obj := Some (addLayer newGeoJsonLayer m),
                       geoJsonLayers := captured @ [newGeoJsonLayer]\<rparr>))"
    using assms(2) n by (simp add: reader_onload_def)
  also have "\<dots> = Inr (st\<lparr>feature_heap := feature_heap (snd (new_features fs st)),
             next_ref := Suc (Suc (next_ref st + length fs)),
             source_heap := (source_heap st)
               (next_ref st + length fs \<mapsto> [next_ref st ..< next_ref st + length fs]),
             layer_heap := (layer_heap st)
               (Suc (next_ref st + length fs) \<mapsto>
                  \<lparr>kind = VectorLayer (next_ref st + length fs), visible = True,
                   style = Some default_style\<rparr>),
             map_obj := Some (m\<lparr>layers := layers m @ [Suc (next_ref st + length fs)]\<rparr>),
             geoJsonLayers := captured @ [Suc (next_ref st + length fs)]\<rparr>)"
    unfolding rs st1 by (simp add: new_source_def new_layer_def addLayer_def assms(1))
  finally show ?thesis .
qed

lemma reader_onload_Inl: "rf x = Inl e \<Longrightarrow> reader_onload rf captured x st = Inl e"
  by (simp add: reader_onload_def)

lemma run_callback_cases:
  assumes "map_obj st = Some m"
  shows "run_callback rf captured x st = st \<or>
         (\<exists>fs. rf x = Inr fs \<and>
            run_callback rf captured x st = layer_effect (import_result captured fs m st))"
proof (cases "rf x")
  case (Inl e)
  then show ?thesis by (simp add: run_callback_def reader_onload_Inl)
next
  case (Inr fs)
  then show ?thesis
    by (simp add: run_callback_def import_result_def
        reader_onload_eq [where rf = rf and x = x, OF assms Inr])
qed

lemma import_result_fields [simp]:
  "map_obj (import_result c fs m st)
     = Some (m\<lparr>layers := layers m @ [Suc (next_ref st + length fs)]\<rparr>)"
  "installed (import_result c fs m st) = interactions m"
  "layerType (import_result c fs m st) = layerType st"
  "drawInteraction (import_result c fs m st) = drawInteraction st"
  "vectorSource (import_result c fs m st) = vectorSource st"
  "geoJsonLayers (import_result c fs m st) = c @ [Suc (next_ref st + length fs)]"
  "showAllLayers (import_result c fs m st) = showAllLayers st"
  "interaction_heap (import_result c fs m st) = interaction_heap st"
  "next_ref (import_result c fs m st) = Suc (Suc (next_ref st + length fs))"
  "pending (import_result c fs m st) = pending st"
  "layer_heap (import_result c fs m st) = (layer_heap st)
     (Suc (next_ref st + length fs) \<mapsto>
        \<lparr>kind = VectorLayer (next_ref st + length fs), visible = True,
         style = Some default_style\<rparr>)"
  "source_heap (import_result c fs m st) = (source_heap st)
     (next_ref st + length fs \<mapsto> [next_ref st ..< next_ref st + length fs])"
  "feature_heap (import_result c fs m st) = feature_heap (snd (new_features fs st))"
  by (simp_all add: import_result_def installed_def)

lemma remove_pending_fields [simp]:
  "map_obj (remove_pending k st) = map_obj st"
  "installed (remove_pending k st) = installed st"
  "layerType (remove_pending k st) = layerType st"
  "drawInteraction (remove_pending k st) = drawInteraction st"
  "vectorSource (remove_pending k st) = vectorSource st"
  "geoJsonLayers (remove_pending k st) = geoJsonLayers st"
  "showAllLayers (remove_pending k st) = showAllLayers st"
  "layer_heap (remove_pending k st) = layer_heap st"
  "source_heap (remove_pending k st) = source_heap st"
  "interaction_heap (remove_pending k st) = interaction_heap st"
  "feature_heap (remove_pending k st) = feature_heap st"
  "next_ref (remove_pending k st) = next_ref st"
  by (simp_all add: remove_pending_def installed_def)

lemma handleGeoJSONImport_fields [simp]:
  "map_obj (handleGeoJSONImport file st) = map_obj st"
  "installed (handleGeoJSONImport file st) = installed st"
  "layerType (handleGeoJSONImport file st) = layerType st"
  "drawInteraction (handleGeoJSONImport file st) = drawInteraction st"
  "vectorSource (handleGeoJSONImport file st) = vectorSource st"
  "geoJsonLayers (handleGeoJSONImport file st) = geoJsonLayers st"
  "showAllLayers (handleGeoJSONImport file st) = showAllLayers st"
  "layer_heap (handleGeoJSONImport file st) = layer_heap st"
  "source_heap (handleGeoJSONImport file st) = source_heap st"
  "interaction_heap (handleGeoJSONImport file st) = interaction_heap st"
  "feature_heap (handleGeoJSONImport file st) = feature_heap st"
  "next_ref (handleGeoJSONImport file st) = next_ref st"
  by (simp_all add: handleGeoJSONImport_def installed_def split: option.splits)

lemma handleGeoJSONImport_pending:
  "p \<in> set (pending (handleGeoJSONImport file st)) \<Longrightarrow>
   p \<in> set (pending st) \<or> fst p = geoJsonLayers st"
  by (cases "file") (auto simp: handleGeoJSONImport_def)

lemma run_callback_frame:
  assumes m: "map_obj st = Some m"
  shows "installed (run_callback rf c x st) = installed st"
    and "interaction_heap (run_callback rf c x st) = interaction_heap st"
    and "drawInteraction (run_callback rf c x st) = drawInteraction st"
    and "vectorSource (run_callback rf c x st) = vectorSource st"
    and "pending (run_callback rf c x st) = pending st"
    and "layerType (run_callback rf c x st) = layerType st"
    and "showAllLayers (run_callback rf c x st) = showAllLayers st"
    and "next_ref st \<le> next_ref (run_callback rf c x st)"
    and "r < next_ref st \<Longrightarrow> source_heap (run_callback rf c x st) r = source_heap st r"
proof -
  from run_callback_cases [OF m, of rf c x]
  consider "run_callback rf c x st = st"
    | fs where "run_callback rf c x st = layer_effect (import_result c fs m st)"
    by blast
  then have "installed (run_callback rf c x st) = installed st \<and>
    interaction_heap (run_callback rf c x st) = interaction_heap st \<and>
    drawInteraction (run_callback rf c x st) = drawInteraction st \<and>
    vectorSource (run_callback rf c x st) = vectorSource st \<and>
    pending (run_callback rf c x st) = pending st \<and>
    layerType (run_callback rf c x st) = layerType st \<and>
    showAllLayers (run_callback rf c x st) = showAllLayers st \<and>
    next_ref st \<le> next_ref (run_callback rf c x st) \<and>
    (r < next_ref st \<longrightarrow> source_heap (run_callback rf c x st) r = source_heap st r)"
  proof cases
    case 1
    then show ?thesis by simp
  next
    case (2 fs)
    have "next_ref (import_result c fs m st) \<le> next_ref (layer_effect (import_result c fs m st))"
      by (rule layer_effect_next_ref)
    then have "next_ref st \<le> next_ref (layer_effect (import_result c fs m st))"
      by simp
    then show ?thesis
      unfolding 2 using m by (simp add: installed_def [of st])
  qed
  then show "installed (run_callback rf c x st) = installed st"
    and "interaction_heap (run_callback rf c x st) = interaction_heap st"
    and "drawInteraction (run_callback rf c x st) = drawInteraction st"
    and "vectorSource (run_callback rf c x st) = vectorSource st"
    and "pending (run_callback rf c x st) = pending st"
    and "layerType (run_callback rf c x st) = layerType st"
    and "showAllLayers (run_callback rf c x st) = showAllLayers st"
    and "next_ref st \<le> next_ref (run_callback rf c x st)"
    and "r < next_ref st \<Longrightarrow> source_heap (run_callback rf c x st) r = source_heap st r"
    by simp_all
qed

lemma remove_pending_subset: "set (pending (remove_pending k st)) \<subseteq> set (pending st)"
  using set_take_subset [of k "pending st"] set_drop_subset [of "Suc k" "pending st"]
  by (auto simp: remove_pending_def)

subsection \<open>Invariants of the reachable states\<close>

lemma mounted_eq:
  "mounted =
     \<lparr>map_obj = Some \<lparr>layers = [3, 4], interactions = []\<rparr>, layerType = osm,
      drawInteraction = None, vectorSource = 0, geoJsonLayers = [], showAllLayers = True,
      layer_heap = ((\<lambda>_. None)
        (1 \<mapsto> \<lparr>kind = TileLayer OSM, visible = True, style = None\<rparr>,
         2 \<mapsto> \<lparr>kind = VectorLayer 0, visible = True, style = None\<rparr>,
         3 \<mapsto> \<lparr>kind = TileLayer OSM, visible = True, style = None\<rparr>,
         4 \<mapsto> \<lparr>kind = VectorLayer 0, visible = True, style = None\<rparr>)),
      source_heap = ((\<lambda>_. None)(0 \<mapsto> [])),
      interaction_heap = (\<lambda>_. None), feature_heap = (\<lambda>_. None), next_ref = 5,
      pending = []\<rparr>"
  by (simp add: mounted_def layer_effect_def mount_effect_def initial_def new_layer_def
      addLayer_def clearLayers_def tile_of_def eval_nat_numeral)

lemma inv_alloc_mounted: "inv_alloc mounted"
  by (simp add: mounted_eq inv_alloc_def installed_def getFeatures_def)

lemma inv_alloc_layer_effect: "inv_alloc st \<Longrightarrow> inv_alloc (layer_effect st)"
  using layer_effect_next_ref [of st]
  by (fastforce simp: inv_alloc_def getFeatures_def)

lemma inv_alloc_callback:
  assumes a: "inv_alloc st" and m: "map_obj st = Some m"
    and c: "\<forall>l\<in>set captured. l < next_ref st"
  shows "inv_alloc (run_callback rf captured x st)"
proof -
  from run_callback_cases [OF m, of rf captured x]
  consider "run_callback rf captured x st = st"
    | fs where "run_callback rf captured x st = layer_effect (import_result captured fs m st)"
    by blast
  then show ?thesis
  proof cases
    case 1
    then show ?thesis using a by simp
  next
    case (2 fs)
    have "l < next_ref st" if "q \<in> set (pending st)" "l \<in> set (fst q)" for q l
      using a that by (auto simp: inv_alloc_def)
    then have "\<forall>q\<in>set (pending st). \<forall>l\<in>set (fst q). l < Suc (Suc (next_ref st + length fs))"
      by fastforce
    then have "inv_alloc (import_result captured fs m st)"
      using a m c by (auto simp: inv_alloc_def getFeatures_def installed_def [of st])
    then show ?thesis
      unfolding 2 by (rule inv_alloc_layer_effect)
  qed
qed

lemma inv_alloc_step:
  assumes a: "inv_alloc st"
  shows "inv_alloc (step rf st ev)"
proof -
  from a obtain m where m: "map_obj st = Some m"
    by (auto simp: inv_alloc_def)
  show ?thesis
  proof (cases ev)
    case (LayerChange v)
    have "inv_alloc (handleLayerChange v st)"
      using a by (simp add: inv_alloc_def handleLayerChange_def installed_def getFeatures_def)
    then show ?thesis using a LayerChange by (simp add: inv_alloc_layer_effect)
  next
    case (DrawButton ty)
    have "set (case drawInteraction st of None \<Rightarrow> interactions m
               | Some d \<Rightarrow> remove1 d (interactions m)) \<subseteq> set (interactions m)"
      using set_remove1_subset [where xs = "interactions m"]
      by (cases "drawInteraction st") auto
    then show ?thesis using a m DrawButton
      by (auto simp: addDrawInteraction_eq inv_alloc_def installed_def getFeatures_def
          less_Suc_eq)
  next
    case (DrawEnd d coords)
    show ?thesis
    proof (cases "d \<in> set (installed st) \<and> is_Draw (interaction_heap st d)")
      case False
      then show ?thesis using a DrawEnd by (simp add: finishDrawing_noop)
    next
      case True
      then obtain s ty where h: "interaction_heap st d = Some (Draw s ty)"
        by (auto simp: is_Draw_def split: option.splits interaction.splits)
      from True m have i: "d \<in> set (interactions m)" by (simp add: installed_def)
      show ?thesis using a m DrawEnd
        by (auto simp: finishDrawing_eq [OF m i h] inv_alloc_def installed_def getFeatures_def
            less_Suc_eq dest: notin_set_remove1)
    qed
  next
    case ModifyButton
    then show ?thesis using a m
      by (auto simp: handleModifyFeatures_eq or_unchanged_def inv_alloc_def installed_def
          getFeatures_def less_Suc_eq)
  next
    case TranslateButton
    then show ?thesis using a m
      by (auto simp: handleTranslateFeatures_eq or_unchanged_def inv_alloc_def installed_def
          getFeatures_def less_Suc_eq)
  next
    case (FilePicked fl)
    then show ?thesis using a
      by (auto simp: inv_alloc_def getFeatures_def dest!: handleGeoJSONImport_pending)
  next
    case (FileLoaded k)
    show ?thesis
    proof (cases "k < length (pending st)")
      case False
      then show ?thesis using a FileLoaded by simp
    next
      case True
      have a0: "inv_alloc (remove_pending k st)"
        using a remove_pending_subset [of k st]
        by (auto simp: inv_alloc_def getFeatures_def)
      have m0: "map_obj (remove_pending k st) = Some m"
        using m by simp
      from True have "pending st ! k \<in> set (pending st)"
        by simp
      with a have c: "\<forall>l\<in>set (fst (pending st ! k)). l < next_ref (remove_pending k st)"
        by (simp add: inv_alloc_def)
      show ?thesis
        using inv_alloc_callback [OF a0 m0 c] True FileLoaded by simp
    qed
  next
    case ShowHideAll
    then show ?thesis using a
      by (simp add: handleShowHideAll_def inv_alloc_def installed_def getFeatures_def)
  next
    case (LayerAction action layer)
    have "inv_alloc (st\<lparr>map_obj := Some (removeLayer layer m),
                     geoJsonLayers := filter (\<lambda>l. l \<noteq> layer) (geoJsonLayers st)\<rparr>)"
      using a m by (auto simp: inv_alloc_def installed_def getFeatures_def removeLayer_def)
    moreover have "inv_alloc (setVisible layer v st)" for v
      using a by (simp add: inv_alloc_def installed_def getFeatures_def)
    ultimately show ?thesis using a m LayerAction
      by (simp add: handleLayerAction_def inv_alloc_layer_effect)
  next
    case (StyleChange layer property v)
    then show ?thesis using a
      by (simp add: handleStyleChange_def Let_def inv_alloc_def installed_def getFeatures_def)
  qed
qed

lemma is_Draw_simps [simp]:
  "is_Draw None = False"
  "is_Draw (Some (Draw s ty)) = True"
  "is_Draw (Some (Modify s)) = False"
  "is_Draw (Some (Translate fs)) = False"
  by (simp_all add: is_Draw_def)

lemma filter_single_holds: "filter P xs = [d] \<Longrightarrow> P d"
proof -
  assume "filter P xs = [d]"
  then have "d \<in> set (filter P xs)" by simp
  then show "P d" by simp
qed

lemma filter_remove1_single: "filter P xs = [d] \<Longrightarrow> filter P (remove1 d xs) = []"
proof (induction xs)
  case Nil
  then show ?case by simp
next
  case (Cons x xs)
  have pd: "P d" using Cons.prems by (rule filter_single_holds)
  show ?case
  proof (cases "P x")
    case True
    with Cons.prems have "x = d" "filter P xs = []" by simp_all
    then show ?thesis by simp
  next
    case False
    with Cons.prems have "filter P xs = [d]" by simp
    with Cons.IH have "filter P (remove1 d xs) = []" by simp
    moreover from False pd have "x \<noteq> d" by auto
    ultimately show ?thesis using False by simp
  qed
qed

lemma filter_fresh:
  "\<forall>i\<in>set xs. i < (n::nat) \<Longrightarrow>
   filter (\<lambda>i. P (if i = n then v else h i)) xs = filter (\<lambda>i. P (h i)) xs"
  by (induction xs) auto

lemma installed_simps [simp]:
  "installed (st\<lparr>map_obj := Some m\<rparr>) = interactions m"
  "installed (st\<lparr>layerType := a\<rparr>) = installed st"
  "installed (st\<lparr>drawInteraction := b\<rparr>) = installed st"
  "installed (st\<lparr>geoJsonLayers := c\<rparr>) = installed st"
  "installed (st\<lparr>showAllLayers := d\<rparr>) = installed st"
  "installed (st\<lparr>layer_heap := e\<rparr>) = installed st"
  "installed (st\<lparr>source_heap := f\<rparr>) = installed st"
  "installed (st\<lparr>interaction_heap := g\<rparr>) = installed st"
  "installed (st\<lparr>feature_heap := h\<rparr>) = installed st"
  "installed (st\<lparr>next_ref := i\<rparr>) = installed st"
  "installed (st\<lparr>pending := p\<rparr>) = installed st"
  "installed (setVisible l v st) = installed st"
  "installed (setStyle l s st) = installed st"
  "installed (foldl (\<lambda>s l. setVisible l v s) st ls) = installed st"
  by (simp_all add: installed_def)

lemma inv_draw_frame:
  "inv_draw st \<Longrightarrow> installed st' = installed st \<Longrightarrow>
   interaction_heap st' = interaction_heap st \<Longrightarrow>
   drawInteraction st' = drawInteraction st \<Longrightarrow> vectorSource st' = vectorSource st \<Longrightarrow>
   inv_draw st'"
  by (simp add: inv_draw_def draws_def tracked_def)

lemma inv_draw_mounted: "inv_draw mounted"
  by (simp add: mounted_eq inv_draw_def draws_def tracked_def installed_def)

lemma inv_draw_fresh:
  assumes d: "inv_draw st"
    and b: "\<forall>i\<in>set xs. i < next_ref st"
    and f: "filter (\<lambda>i. is_Draw (interaction_heap st i)) xs = old"
    and s: "\<And>s ty. i = Draw s ty \<Longrightarrow> s = vectorSource st"
    and m: "map_obj st' = Some (m\<lparr>interactions := xs @ [next_ref st]\<rparr>)"
    and h: "interaction_heap st' = (interaction_heap st)(next_ref st \<mapsto> i)"
    and v: "vectorSource st' = vectorSource st"
    and t: "tracked st' = old @ (if is_Draw (Some i) then [next_ref st] else [])"
  shows "inv_draw st'"
proof -
  have "filter (\<lambda>j. is_Draw (interaction_heap st' j)) xs = old"
    using filter_fresh [OF b, of is_Draw "Some i" "interaction_heap st"] f
    by (simp add: h)
  then have "draws st' = tracked st'"
    by (simp add: draws_def installed_def m h t)
  moreover have "s' = vectorSource st'" if k: "interaction_heap st' r = Some (Draw s' ty)" for r s' ty
  proof (cases "r = next_ref st")
    case True
    with k h have "i = Draw s' ty" by simp
    with s v show ?thesis by simp
  next
    case False
    with k h have "interaction_heap st r = Some (Draw s' ty)" by simp
    with d have "s' = vectorSource st" unfolding inv_draw_def by blast
    then show ?thesis by (simp add: v)
  qed
  ultimately show ?thesis by (simp add: inv_draw_def)
qed

lemma inv_draw_step:
  assumes a: "inv_alloc st" and d: "inv_draw st"
  shows "inv_draw (step rf st ev)"
proof -
  from a obtain m where m: "map_obj st = Some m"
    by (auto simp: inv_alloc_def)
  have bound: "\<forall>i\<in>set (interactions m). i < next_ref st"
    using a m by (simp add: inv_alloc_def installed_def)
  have dr: "filter (\<lambda>i. is_Draw (interaction_heap st i)) (interactions m) = tracked st"
    using d m by (simp add: inv_draw_def draws_def installed_def)
  show ?thesis
  proof (cases ev)
    case (LayerChange v)
    have "inv_draw (layer_effect (handleLayerChange v st))"
      by (rule inv_draw_frame [OF d]) (simp_all add: handleLayerChange_def)
    then show ?thesis using d LayerChange by simp
  next
    case (DrawButton ty)
    let ?xs = "case drawInteraction st of None \<Rightarrow> interactions m
               | Some d \<Rightarrow> remove1 d (interactions m)"
    have sub: "set ?xs \<subseteq> set (interactions m)"
      using set_remove1_subset [where xs = "interactions m"]
      by (cases "drawInteraction st") auto
    have none: "filter (\<lambda>i. is_Draw (interaction_heap st i)) ?xs = []"
      using dr by (cases "drawInteraction st") (simp_all add: tracked_def filter_remove1_single)
    have "inv_draw (addDrawInteraction ty st)"
    proof (rule inv_draw_fresh [where i = "Draw (vectorSource st) ty" and m = m, OF d _ none])
      show "\<forall>i\<in>set ?xs. i < next_ref st" using bound sub by blast
      show "map_obj (addDrawInteraction ty st) = Some (m\<lparr>interactions := ?xs @ [next_ref st]\<rparr>)"
        by (simp add: addDrawInteraction_eq [OF m])
      show "interaction_heap (addDrawInteraction ty st) =
          (interaction_heap st)(next_ref st \<mapsto> Draw (vectorSource st) ty)"
        by (simp add: addDrawInteraction_eq [OF m])
      show "tracked (addDrawInteraction ty st) =
          [] @ (if is_Draw (Some (Draw (vectorSource st) ty)) then [next_ref st] else [])"
        by (simp add: addDrawInteraction_eq [OF m] tracked_def)
    qed (simp_all add: addDrawInteraction_eq [OF m])
    then show ?thesis using DrawButton by simp
  next
    case (DrawEnd r coords)
    show ?thesis
    proof (cases "r \<in> set (installed st) \<and> is_Draw (interaction_heap st r)")
      case False
      then show ?thesis using d DrawEnd by (simp add: finishDrawing_noop)
    next
      case True
      then obtain s ty where h: "interaction_heap st r = Some (Draw s ty)"
        by (auto simp: is_Draw_def split: option.splits interaction.splits)
      from True m have i: "r \<in> set (interactions m)" by (simp add: installed_def)
      from True have "r \<in> set (draws st)" by (simp add: draws_def)
      with d have "tracked st = [r]"
        by (auto simp: inv_draw_def tracked_def split: option.splits)
      with dr have "filter (\<lambda>i. is_Draw (interaction_heap st i)) (remove1 r (interactions m)) = []"
        by (simp add: filter_remove1_single)
      then show ?thesis using d DrawEnd
        by (simp add: finishDrawing_eq [OF m i h] inv_draw_def draws_def tracked_def
            installed_def)
    qed
  next
    case ModifyButton
    have "inv_draw (st\<lparr>interaction_heap := (interaction_heap st)(next_ref st \<mapsto> Modify (vectorSource st)),
             next_ref := Suc (next_ref st),
             map_obj := Some (m\<lparr>interactions := interactions m @ [next_ref st]\<rparr>)\<rparr>)"
      by (rule inv_draw_fresh [where i = "Modify (vectorSource st)" and m = m, OF d bound dr])
        (simp_all add: tracked_def)
    then show ?thesis using ModifyButton
      by (simp add: handleModifyFeatures_eq [OF m] or_unchanged_def)
  next
    case TranslateButton
    have "inv_draw (st\<lparr>interaction_heap := (interaction_heap st)
                (next_ref st \<mapsto> Translate (getFeatures st (vectorSource st))),
             next_ref := Suc (next_ref st),
             map_obj := Some (m\<lparr>interactions := interactions m @ [next_ref st]\<rparr>)\<rparr>)"
      by (rule inv_draw_fresh
            [where i = "Translate (getFeatures st (vectorSource st))" and m = m, OF d bound dr])
        (simp_all add: tracked_def)
    then show ?thesis using TranslateButton
      by (simp add: handleTranslateFeatures_eq [OF m] or_unchanged_def)
  next
    case (FilePicked fl)
    have "inv_draw (handleGeoJSONImport fl st)"
      by (rule inv_draw_frame [OF d]) simp_all
    then show ?thesis using FilePicked by simp
  next
    case (FileLoaded k)
    have m0: "map_obj (remove_pending k st) = Some m"
      using m by simp
    have "inv_draw (run_callback rf c x (remove_pending k st))" for c x
      by (rule inv_draw_frame [OF d]) (simp_all add: run_callback_frame [OF m0])
    then show ?thesis using d FileLoaded by simp
  next
    case ShowHideAll
    have "inv_draw (handleShowHideAll st)"
      by (rule inv_draw_frame [OF d]) (simp_all add: handleShowHideAll_def)
    then show ?thesis using ShowHideAll by simp
  next
    case (LayerAction action layer)
    have 1: "inv_draw (layer_effect (st\<lparr>map_obj := Some (removeLayer layer m),
                     geoJsonLayers := filter (\<lambda>l. l \<noteq> layer) (geoJsonLayers st)\<rparr>))"
      by (rule inv_draw_frame [OF d]) (simp_all add: installed_def [of st] m removeLayer_def)
    have 2: "inv_draw (setVisible layer v st)" for v
      by (rule inv_draw_frame [OF d]) simp_all
    show ?thesis using d m LayerAction 1 2
      by (simp add: handleLayerAction_def)
  next
    case (StyleChange layer property v)
    have "inv_draw (handleStyleChange layer property v st)"
      by (rule inv_draw_frame [OF d]) (simp_all add: handleStyleChange_def Let_def)
    then show ?thesis using d StyleChange by simp
  qed
qed

subsection \<open>Runs\<close>

lemma kept_refl: "kept st st"
  by (simp add: kept_def)

lemma kept_trans:
  assumes ab: "kept a b" and bc: "kept b c" and a: "inv_alloc a"
  shows "kept a c"
proof -
  have n: "next_ref a \<le> next_ref b" "next_ref b \<le> next_ref c"
    and v: "vectorSource b = vectorSource a" "vectorSource c = vectorSource b"
    using ab bc by (simp_all add: kept_def)
  have h: "interaction_heap c i = interaction_heap a i" if "i < next_ref a" for i
  proof -
    from that n have "i < next_ref b" by simp
    with bc have "interaction_heap c i = interaction_heap b i" by (simp add: kept_def)
    also from that ab have "\<dots> = interaction_heap a i" by (simp add: kept_def)
    finally show ?thesis .
  qed
  have t: "t \<in> set (installed c)"
    if "t \<in> set (installed a)" "\<not> is_Draw (interaction_heap a t)" for t
  proof -
    from that ab have 1: "t \<in> set (installed b)" by (simp add: kept_def)
    from that a have "t < next_ref a" by (simp add: inv_alloc_def)
    with ab have "interaction_heap b t = interaction_heap a t" by (simp add: kept_def)
    with that have "\<not> is_Draw (interaction_heap b t)" by simp
    with 1 bc show ?thesis by (simp add: kept_def)
  qed
  have f: "set (getFeatures a (vectorSource a)) \<subseteq> set (getFeatures c (vectorSource a))"
  proof -
    have "set (getFeatures a (vectorSource a)) \<subseteq> set (getFeatures b (vectorSource a))"
      using ab by (simp add: kept_def)
    also have "\<dots> \<subseteq> set (getFeatures c (vectorSource a))"
      using bc v by (simp add: kept_def)
    finally show ?thesis .
  qed
  show ?thesis
    using n v h t f by (simp add: kept_def)
qed

lemma kept_frame:
  "next_ref st \<le> next_ref st' \<Longrightarrow> vectorSource st' = vectorSource st \<Longrightarrow>
   interaction_heap st' = interaction_heap st \<Longrightarrow> installed st' = installed st \<Longrightarrow>
   source_heap st' (vectorSource st) = source_heap st (vectorSource st) \<Longrightarrow> kept st st'"
  by (simp add: kept_def getFeatures_def)

lemma kept_step:
  assumes a: "inv_alloc st" and d: "inv_draw st"
  shows "kept st (step rf st ev)"
proof -
  from a obtain m where m: "map_obj st = Some m"
    by (auto simp: inv_alloc_def)
  have inst: "installed st = interactions m"
    using m by (simp add: installed_def)
  have bound: "\<forall>i\<in>set (interactions m). i < next_ref st"
    using a m by (simp add: inv_alloc_def installed_def)
  have vs: "vectorSource st < next_ref st"
    using a by (simp add: inv_alloc_def)
  have rm: "t \<in> set (remove1 r (interactions m))"
    if "t \<in> set (interactions m)" "\<not> is_Draw (interaction_heap st t)"
      "is_Draw (interaction_heap st r)" for t r
  proof -
    from that have "t \<noteq> r" by auto
    with that(1) show ?thesis by simp
  qed
  show ?thesis
  proof (cases ev)
    case (LayerChange v)
    have "kept st (layer_effect (handleLayerChange v st))"
      using layer_effect_next_ref [of "handleLayerChange v st"]
      by (intro kept_frame) (simp_all add: handleLayerChange_def)
    then show ?thesis using LayerChange by (simp add: kept_refl)
  next
    case (DrawButton ty)
    have "t \<in> set (case drawInteraction st of None \<Rightarrow> interactions m
                  | Some r \<Rightarrow> remove1 r (interactions m))"
      if t: "t \<in> set (interactions m)" "\<not> is_Draw (interaction_heap st t)" for t
    proof (cases "drawInteraction st")
      case None
      with t show ?thesis by simp
    next
      case (Some r)
      with d have "draws st = [r]" by (simp add: inv_draw_def tracked_def)
      then have "is_Draw (interaction_heap st r)"
        unfolding draws_def by (rule filter_single_holds)
      with t Some show ?thesis by (simp add: rm)
    qed
    then show ?thesis using DrawButton
      by (simp add: addDrawInteraction_eq [OF m] kept_def inst getFeatures_def)
  next
    case (DrawEnd r coords)
    show ?thesis
    proof (cases "r \<in> set (installed st) \<and> is_Draw (interaction_heap st r)")
      case False
      then show ?thesis using DrawEnd by (simp add: finishDrawing_noop kept_refl)
    next
      case True
      then obtain s ty where h: "interaction_heap st r = Some (Draw s ty)"
        by (auto simp: is_Draw_def split: option.splits interaction.splits)
      from True m have i: "r \<in> set (interactions m)" by (simp add: installed_def)
      from True have "t \<in> set (remove1 r (interactions m))"
        if "t \<in> set (interactions m)" "\<not> is_Draw (interaction_heap st t)" for t
        using that by (simp add: rm)
      then show ?thesis using DrawEnd
        by (auto simp: finishDrawing_eq [OF m i h] kept_def inst getFeatures_def)
    qed
  next
    case ModifyButton
    then show ?thesis using vs
      by (simp add: handleModifyFeatures_eq [OF m] or_unchanged_def kept_def inst
          getFeatures_def)
  next
    case TranslateButton
    then show ?thesis using vs
      by (simp add: handleTranslateFeatures_eq [OF m] or_unchanged_def kept_def inst
          getFeatures_def)
  next
    case (FilePicked fl)
    have "kept st (handleGeoJSONImport fl st)"
      by (intro kept_frame) simp_all
    then show ?thesis using FilePicked by simp
  next
    case (FileLoaded k)
    have m0: "map_obj (remove_pending k st) = Some m"
      using m by simp
    have "kept st (run_callback rf c x (remove_pending k st))" for c x
      using run_callback_frame(8) [OF m0, where rf = rf and c = c and x = x]
        run_callback_frame(9) [OF m0, where rf = rf and c = c and x = x and r = "vectorSource st"]
        vs
      by (intro kept_frame) (simp_all add: run_callback_frame [OF m0])
    then show ?thesis using FileLoaded by (simp add: kept_refl)
  next
    case ShowHideAll
    have "kept st (handleShowHideAll st)"
      by (intro kept_frame) (simp_all add: handleShowHideAll_def)
    then show ?thesis using ShowHideAll by simp
  next
    case (LayerAction action layer)
    have 1: "kept st (layer_effect (st\<lparr>map_obj := Some (removeLayer layer m),
                     geoJsonLayers := filter (\<lambda>l. l \<noteq> layer) (geoJsonLayers st)\<rparr>))"
      (is "kept st (layer_effect ?st')")
      using layer_effect_next_ref [of ?st']
      by (intro kept_frame) (simp_all add: inst removeLayer_def)
    have 2: "kept st (setVisible layer v st)" for v
      by (intro kept_frame) simp_all
    show ?thesis using m LayerAction 1 2
      by (simp add: handleLayerAction_def kept_refl)
  next
    case (StyleChange layer property v)
    have "kept st (handleStyleChange layer property v st)"
      by (intro kept_frame) (simp_all add: handleStyleChange_def Let_def)
    then show ?thesis using StyleChange by (simp add: kept_refl)
  qed
qed

lemma run_Nil [simp]: "run rf st [] = st"
  by (simp add: run_def)

lemma run_Cons [simp]: "run rf st (ev # evs) = run rf (step rf st ev) evs"
  by (simp add: run_def)

lemma run_append: "run rf st (evs @ evs') = run rf (run rf st evs) evs'"
  by (simp add: run_def)

lemma inv_run:
  "inv_alloc st \<Longrightarrow> inv_draw st \<Longrightarrow>
   inv_alloc (run rf st evs) \<and> inv_draw (run rf st evs) \<and> kept st (run rf st evs)"
proof (induction evs arbitrary: st)
  case Nil
  then show ?case by (simp add: kept_refl)
next
  case (Cons ev evs)
  have 1: "inv_alloc (step rf st ev)" using Cons.prems by (simp add: inv_alloc_step)
  have 2: "inv_draw (step rf st ev)" using Cons.prems by (simp add: inv_draw_step)
  have 3: "kept st (step rf st ev)" using Cons.prems by (simp add: kept_step)
  from Cons.IH [OF 1 2] have i: "inv_alloc (run rf (step rf st ev) evs)"
    "inv_draw (run rf (step rf st ev) evs)"
    and k: "kept (step rf st ev) (run rf (step rf st ev) evs)"
    by simp_all
  from kept_trans [OF 3 k Cons.prems(1)] i show ?case by simp
qed

lemma reachable_inv:
  "inv_alloc (run rf mounted evs)" "inv_draw (run rf mounted evs)"
  using inv_run [OF inv_alloc_mounted inv_draw_mounted] by simp_all

lemma tracked_draw:
  assumes a: "inv_alloc st" and d: "inv_draw st" and t: "drawInteraction st = Some r"
  obtains m ty where "map_obj st = Some m" "r \<in> set (interactions m)"
    "interaction_heap st r = Some (Draw (vectorSource st) ty)"
    "filter (\<lambda>i. is_Draw (interaction_heap st i)) (remove1 r (interactions m)) = []"
proof -
  from a obtain m where m: "map_obj st = Some m"
    by (auto simp: inv_alloc_def)
  from d t have dr: "draws st = [r]"
    by (simp add: inv_draw_def tracked_def)
  then have f: "filter (\<lambda>i. is_Draw (interaction_heap st i)) (interactions m) = [r]"
    using m by (simp add: draws_def installed_def)
  then have "r \<in> set (filter (\<lambda>i. is_Draw (interaction_heap st i)) (interactions m))"
    by simp
  then have i: "r \<in> set (interactions m)" and "is_Draw (interaction_heap st r)"
    by simp_all
  then obtain s ty where h: "interaction_heap st r = Some (Draw s ty)"
    by (auto simp: is_Draw_def split: option.splits interaction.splits)
  with d have "s = vectorSource st"
    unfolding inv_draw_def by blast
  with h have "interaction_heap st r = Some (Draw (vectorSource st) ty)" by simp
  moreover from f have
    "filter (\<lambda>i. is_Draw (interaction_heap st i)) (remove1 r (interactions m)) = []"
    by (rule filter_remove1_single)
  ultimately show ?thesis using that m i by blast
qed

lemma translate_snapshot:
  assumes a: "inv_alloc st" and d: "inv_draw st"
  shows "interaction_heap (run rf (step rf st TranslateButton) evs) (next_ref st)
           = Some (Translate (getFeatures st (vectorSource st))) \<and>
         next_ref st \<in> set (installed (run rf (step rf st TranslateButton) evs)) \<and>
         Suc (next_ref st) \<le> next_ref (run rf (step rf st TranslateButton) evs) \<and>
         vectorSource (run rf (step rf st TranslateButton) evs) = vectorSource st \<and>
         inv_alloc (run rf (step rf st TranslateButton) evs) \<and>
         inv_draw (run rf (step rf st TranslateButton) evs)"
proof -
  let ?st1 = "step rf st TranslateButton"
  let ?st2 = "run rf ?st1 evs"
  from a obtain m where m: "map_obj st = Some m"
    by (auto simp: inv_alloc_def)
  have eq: "?st1 = st\<lparr>interaction_heap := (interaction_heap st)
                (next_ref st \<mapsto> Translate (getFeatures st (vectorSource st))),
             next_ref := Suc (next_ref st),
             map_obj := Some (m\<lparr>interactions := interactions m @ [next_ref st]\<rparr>)\<rparr>"
    by (simp add: handleTranslateFeatures_eq [OF m] or_unchanged_def)
  have a1: "inv_alloc ?st1" using a by (rule inv_alloc_step)
  have d1: "inv_draw ?st1" using a d by (rule inv_draw_step)
  have h1: "interaction_heap ?st1 (next_ref st) = Some (Translate (getFeatures st (vectorSource st)))"
    and i1: "next_ref st \<in> set (installed ?st1)"
    and n1: "next_ref ?st1 = Suc (next_ref st)"
    and v1: "vectorSource ?st1 = vectorSource st"
    unfolding eq by simp_all
  from inv_run [OF a1 d1, of rf evs]
  have a2: "inv_alloc ?st2" and d2: "inv_draw ?st2" and k: "kept ?st1 ?st2"
    by simp_all
  from k n1 have n2: "Suc (next_ref st) \<le> next_ref ?st2"
    by (simp add: kept_def)
  from k n1 have "interaction_heap ?st2 (next_ref st) = interaction_heap ?st1 (next_ref st)"
    by (simp add: kept_def)
  with h1 have h2: "interaction_heap ?st2 (next_ref st)
      = Some (Translate (getFeatures st (vectorSource st)))"
    by simp
  from h1 have "\<not> is_Draw (interaction_heap ?st1 (next_ref st))" by simp
  with k i1 have i2: "next_ref st \<in> set (installed ?st2)"
    unfolding kept_def by blast
  from k v1 have v2: "vectorSource ?st2 = vectorSource st"
    by (simp add: kept_def)
  from h2 i2 n2 v2 a2 d2 show ?thesis by simp
qed

lemmas eval_defs =
  mounted_eq addDrawInteraction_def removeInteraction_def addInteraction_def
  handleModifyFeatures_def handleTranslateFeatures_def new_interaction_def or_unchanged_def
  finishDrawing_def drawend_listener_def new_feature_def addFeature_def getFeatures_def
  installed_def

subsection \<open>The layers on the map\<close>

lemma map_layers_simps [simp]:
  "map_layers (st\<lparr>map_obj := Some m\<rparr>) = layers m"
  "map_layers (st\<lparr>layerType := a\<rparr>) = map_layers st"
  "map_layers (st\<lparr>drawInteraction := b\<rparr>) = map_layers st"
  "map_layers (st\<lparr>geoJsonLayers := c\<rparr>) = map_layers st"
  "map_layers (st\<lparr>showAllLayers := d\<rparr>) = map_layers st"
  "map_layers (st\<lparr>layer_heap := e\<rparr>) = map_layers st"
  "map_layers (st\<lparr>source_heap := f\<rparr>) = map_layers st"
  "map_layers (st\<lparr>interaction_heap := g\<rparr>) = map_layers st"
  "map_layers (st\<lparr>feature_heap := h\<rparr>) = map_layers st"
  "map_layers (st\<lparr>next_ref := i\<rparr>) = map_layers st"
  "map_layers (st\<lparr>pending := p\<rparr>) = map_layers st"
  "map_layers (setVisible l v st) = map_layers st"
  "map_layers (setStyle l s st) = map_layers st"
  "map_layers (foldl (\<lambda>s l. setVisible l v s) st ls) = map_layers st"
  "map_layers (handleGeoJSONImport file st) = map_layers st"
  "map_layers (remove_pending n st) = map_layers st"
  "map_layers (import_result c fs m st) = layers m @ [Suc (next_ref st + length fs)]"
  by (simp_all add: map_layers_def)

lemma kind_of_simps [simp]:
  "kind_of (st\<lparr>map_obj := a0\<rparr>) k = kind_of st k"
  "kind_of (st\<lparr>layerType := a\<rparr>) k = kind_of st k"
  "kind_of (st\<lparr>drawInteraction := b\<rparr>) k = kind_of st k"
  "kind_of (st\<lparr>geoJsonLayers := c\<rparr>) k = kind_of st k"
  "kind_of (st\<lparr>showAllLayers := d\<rparr>) k = kind_of st k"
  "kind_of (st\<lparr>source_heap := f\<rparr>) k = kind_of st k"
  "kind_of (st\<lparr>interaction_heap := g\<rparr>) k = kind_of st k"
  "kind_of (st\<lparr>feature_heap := h\<rparr>) k = kind_of st k"
  "kind_of (st\<lparr>next_ref := i\<rparr>) k = kind_of st k"
  "kind_of (st\<lparr>pending := p\<rparr>) k = kind_of st k"
  "kind_of (setVisible l v st) k = kind_of st k"
  "kind_of (setStyle l s st) k = kind_of st k"
  "kind_of (foldl (\<lambda>s l. setVisible l v s) st ls) k = kind_of st k"
  "kind_of (handleGeoJSONImport file st) k = kind_of st k"
  "kind_of (remove_pending n st) k = kind_of st k"
  by (simp_all add: kind_of_def setVisible_layer_heap setStyle_layer_heap setAll_layer_heap
      option.map_comp comp_def)

lemma layer_effect_layers:
  assumes "map_obj st = Some m"
  shows "map_layers (layer_effect st) = next_ref st # Suc (next_ref st) # geoJsonLayers st"
    and "kind_of (layer_effect st) (next_ref st) = Some (TileLayer (tile_of (layerType st)))"
    and "kind_of (layer_effect st) (Suc (next_ref st)) = Some (VectorLayer (vectorSource st))"
    and "layer_heap st l \<noteq> None \<Longrightarrow> layer_heap (layer_effect st) l \<noteq> None"
    and "l < next_ref st \<Longrightarrow> layer_heap (layer_effect st) l = layer_heap st l"
  using layer_effect_cases [of st] assms by (auto simp: kind_of_def)

lemma layers_ok_layer_effect: "map_obj st = Some m \<Longrightarrow> layers_ok (layer_effect st)"
  by (simp add: layers_ok_def layer_effect_layers)

lemma is_imported_cong:
  "kind_of st' l = kind_of st l \<Longrightarrow> vectorSource st' = vectorSource st \<Longrightarrow>
   is_imported st' l = is_imported st l"
  unfolding is_imported_def by (auto split: option.splits layer_kind.splits)

lemma is_imported_heap: "is_imported st l \<Longrightarrow> layer_heap st l \<noteq> None"
  by (auto simp: is_imported_def kind_of_def split: option.splits)

lemma is_imported_layer_effect:
  assumes "map_obj st = Some m" and "l < next_ref st"
  shows "is_imported (layer_effect st) l = is_imported st l"
  using layer_effect_layers(5) [OF assms]
  by (intro is_imported_cong) (simp_all add: kind_of_def)

lemma inv_layers_layer_effect:
  assumes m: "map_obj st = Some m"
    and h: "\<forall>l\<in>set (geoJsonLayers st). l < next_ref st \<and> is_imported st l"
    and hp: "\<forall>p\<in>set (pending st). \<forall>l\<in>set (fst p). l < next_ref st \<and> is_imported st l"
  shows "inv_layers (layer_effect st)"
  using h hp
  by (simp add: inv_layers_def layers_ok_layer_effect [OF m] is_imported_layer_effect [OF m])

lemma inv_layers_frame:
  assumes "inv_layers st" and "map_layers st' = map_layers st"
    and "\<And>k. kind_of st' k = kind_of st k"
    and "layerType st' = layerType st" and "vectorSource st' = vectorSource st"
    and "geoJsonLayers st' = geoJsonLayers st" and "pending st' = pending st"
  shows "inv_layers st'"
proof -
  have "is_imported st' l = is_imported st l" for l
    using assms(3,5) by (rule is_imported_cong)
  then show ?thesis
    using assms by (auto simp: inv_layers_def layers_ok_def split: list.splits)
qed

lemma inv_layers_mounted: "inv_layers mounted"
  by (simp add: inv_layers_def layers_ok_def map_layers_def kind_of_def mounted_eq tile_of_def)

lemma inv_layers_pending:
  assumes i: "inv_layers st" and "map_layers st' = map_layers st"
    and "\<And>k. kind_of st' k = kind_of st k"
    and "layerType st' = layerType st" and "vectorSource st' = vectorSource st"
    and "geoJsonLayers st' = geoJsonLayers st"
    and p: "\<And>p. p \<in> set (pending st') \<Longrightarrow> p \<in> set (pending st) \<or> fst p = geoJsonLayers st"
  shows "inv_layers st'"
proof -
  have e: "is_imported st' l = is_imported st l" for l
    using assms(3,5) by (rule is_imported_cong)
  have "is_imported st l" if "q \<in> set (pending st')" "l \<in> set (fst q)" for q l
    using p [OF that(1)] that(2) i by (auto simp: inv_layers_def)
  then show ?thesis
    using assms(1,2,3,4,5,6) e by (auto simp: inv_layers_def layers_ok_def split: list.splits)
qed

lemma inv_layers_callback:
  assumes a: "inv_alloc st" and i: "inv_layers st" and m: "map_obj st = Some m"
    and c: "\<forall>l\<in>set captured. l < next_ref st \<and> is_imported st l"
  shows "inv_layers (run_callback rf captured x st)"
proof -
  from run_callback_cases [OF m, of rf captured x]
  consider "run_callback rf captured x st = st"
    | fs where "run_callback rf captured x st = layer_effect (import_result captured fs m st)"
    by blast
  then show ?thesis
  proof cases
    case 1
    then show ?thesis using i by simp
  next
    case (2 fs)
    let ?st1 = "import_result captured fs m st"
    have vs: "vectorSource st < next_ref st"
      using a by (simp add: inv_alloc_def)
    have old: "is_imported ?st1 l = is_imported st l" if "l < next_ref st" for l
      using that by (intro is_imported_cong) (simp_all add: kind_of_def)
    have new: "is_imported ?st1 (Suc (next_ref st + length fs))"
      using vs by (simp add: is_imported_def kind_of_def)
    have "\<forall>l\<in>set (geoJsonLayers ?st1). l < next_ref ?st1 \<and> is_imported ?st1 l"
      using c old new by auto
    moreover have "\<forall>p\<in>set (pending ?st1). \<forall>l\<in>set (fst p). l < next_ref ?st1 \<and> is_imported ?st1 l"
      using a i old by (fastforce simp: inv_alloc_def inv_layers_def)
    moreover have "map_obj ?st1 = Some (m\<lparr>layers := layers m @ [Suc (next_ref st + length fs)]\<rparr>)"
      by simp
    ultimately show ?thesis
      unfolding 2 by (intro inv_layers_layer_effect)
  qed
qed

lemma inv_layers_step:
  assumes a: "inv_alloc st" and i: "inv_layers st"
  shows "inv_layers (step rf st ev)"
proof -
  from a obtain m where m: "map_obj st = Some m"
    by (auto simp: inv_alloc_def)
  have ml: "map_layers st = layers m"
    using m by (simp add: map_layers_def)
  have h: "\<forall>l\<in>set (geoJsonLayers st). l < next_ref st \<and> is_imported st l"
    using a i by (simp add: inv_alloc_def inv_layers_def)
  have hp: "\<forall>p\<in>set (pending st). \<forall>l\<in>set (fst p). l < next_ref st \<and> is_imported st l"
    using a i by (simp add: inv_alloc_def inv_layers_def)
  show ?thesis
  proof (cases ev)
    case (LayerChange v)
    have "inv_layers (layer_effect (handleLayerChange v st))"
    proof (rule inv_layers_layer_effect)
      show "map_obj (handleLayerChange v st) = Some m"
        using m by (simp add: handleLayerChange_def)
      have "is_imported (handleLayerChange v st) l = is_imported st l" for l
        by (intro is_imported_cong) (simp_all add: handleLayerChange_def)
      then show "\<forall>l\<in>set (geoJsonLayers (handleLayerChange v st)).
          l < next_ref (handleLayerChange v st) \<and> is_imported (handleLayerChange v st) l"
        "\<forall>p\<in>set (pending (handleLayerChange v st)). \<forall>l\<in>set (fst p).
          l < next_ref (handleLayerChange v st) \<and> is_imported (handleLayerChange v st) l"
        using h hp by (simp_all add: handleLayerChange_def)
    qed
    then show ?thesis using i LayerChange by simp
  next
    case (DrawButton ty)
    have "inv_layers (addDrawInteraction ty st)"
      by (rule inv_layers_frame [OF i])
        (simp_all add: addDrawInteraction_eq [OF m] ml kind_of_def)
    then show ?thesis using DrawButton by simp
  next
    case (DrawEnd r coords)
    show ?thesis
    proof (cases "r \<in> set (installed st) \<and> is_Draw (interaction_heap st r)")
      case False
      then show ?thesis using i DrawEnd by (simp add: finishDrawing_noop)
    next
      case True
      then obtain s ty where hd: "interaction_heap st r = Some (Draw s ty)"
        by (auto simp: is_Draw_def split: option.splits interaction.splits)
      from True m have r: "r \<in> set (interactions m)" by (simp add: installed_def)
      have "inv_layers (finishDrawing r coords st)"
        by (rule inv_layers_frame [OF i])
          (simp_all add: finishDrawing_eq [OF m r hd] ml kind_of_def)
      then show ?thesis using DrawEnd by simp
    qed
  next
    case ModifyButton
    have "inv_layers (st\<lparr>interaction_heap := (interaction_heap st)(next_ref st \<mapsto> Modify (vectorSource st)),
             next_ref := Suc (next_ref st),
             map_obj := Some (m\<lparr>interactions := interactions m @ [next_ref st]\<rparr>)\<rparr>)"
      by (rule inv_layers_frame [OF i]) (simp_all add: ml kind_of_def)
    then show ?thesis using ModifyButton
      by (simp add: handleModifyFeatures_eq [OF m] or_unchanged_def)
  next
    case TranslateButton
    have "inv_layers (st\<lparr>interaction_heap := (interaction_heap st)
                (next_ref st \<mapsto> Translate (getFeatures st (vectorSource st))),
             next_ref := Suc (next_ref st),
             map_obj := Some (m\<lparr>interactions := interactions m @ [next_ref st]\<rparr>)\<rparr>)"
      by (rule inv_layers_frame [OF i]) (simp_all add: ml kind_of_def)
    then show ?thesis using TranslateButton
      by (simp add: handleTranslateFeatures_eq [OF m] or_unchanged_def)
  next
    case (FilePicked fl)
    have "inv_layers (handleGeoJSONImport fl st)"
      by (rule inv_layers_pending [OF i]) (simp_all add: handleGeoJSONImport_pending)
    then show ?thesis using FilePicked by simp
  next
    case (FileLoaded k)
    show ?thesis
    proof (cases "k < length (pending st)")
      case False
      then show ?thesis using i FileLoaded by simp
    next
      case True
      have a0: "inv_alloc (remove_pending k st)"
        using a remove_pending_subset [of k st]
        by (auto simp: inv_alloc_def getFeatures_def)
      have i0: "inv_layers (remove_pending k st)"
        using remove_pending_subset [of k st]
        by (intro inv_layers_pending [OF i]) auto
      have m0: "map_obj (remove_pending k st) = Some m"
        using m by simp
      from True have "pending st ! k \<in> set (pending st)"
        by simp
      with hp have c: "\<forall>l\<in>set (fst (pending st ! k)).
          l < next_ref (remove_pending k st) \<and> is_imported (remove_pending k st) l"
        by (simp add: is_imported_cong [of "remove_pending k st" _ st])
      show ?thesis
        using inv_layers_callback [OF a0 i0 m0 c] True FileLoaded by simp
    qed
  next
    case ShowHideAll
    have "inv_layers (handleShowHideAll st)"
      by (rule inv_layers_frame [OF i]) (simp_all add: handleShowHideAll_def)
    then show ?thesis using ShowHideAll by simp
  next
    case (LayerAction action layer)
    let ?st1 = "st\<lparr>map_obj := Some (removeLayer layer m),
                     geoJsonLayers := filter (\<lambda>l. l \<noteq> layer) (geoJsonLayers st)\<rparr>"
    have "is_imported ?st1 l = is_imported st l" for l
      by (intro is_imported_cong) simp_all
    then have 1: "inv_layers (layer_effect ?st1)"
      using h hp by (intro inv_layers_layer_effect [where m = "removeLayer layer m"]) simp_all
    have 2: "inv_layers (setVisible layer v st)" for v
      by (rule inv_layers_frame [OF i]) simp_all
    show ?thesis using i m LayerAction 1 2
      by (simp add: handleLayerAction_def)
  next
    case (StyleChange layer property v)
    have "inv_layers (handleStyleChange layer property v st)"
      by (rule inv_layers_frame [OF i]) (simp_all add: handleStyleChange_def Let_def)
    then show ?thesis using i StyleChange by simp
  qed
qed

lemma inv_layers_run:
  "inv_alloc st \<Longrightarrow> inv_layers st \<Longrightarrow> inv_layers (run rf st evs)"
proof (induction evs arbitrary: st)
  case Nil
  then show ?case by simp
next
  case (Cons ev evs)
  have "inv_alloc (step rf st ev)" using Cons.prems by (simp add: inv_alloc_step)
  moreover have "inv_layers (step rf st ev)" using Cons.prems by (simp add: inv_layers_step)
  ultimately show ?case using Cons.IH by simp
qed

lemma reachable_layers: "inv_layers (run rf mounted evs)"
  using inv_alloc_mounted inv_layers_mounted by (rule inv_layers_run)


lemma heap_fresh_setVisible [simp]: "heap_fresh (setVisible l v st) = heap_fresh st"
  by (auto simp: heap_fresh_def setVisible_layer_heap)

lemma heap_fresh_setStyle [simp]: "heap_fresh (setStyle l s st) = heap_fresh st"
  by (auto simp: heap_fresh_def setStyle_layer_heap)

lemma heap_fresh_setAll [simp]:
  "heap_fresh (foldl (\<lambda>s l. setVisible l v s) st ls) = heap_fresh st"
  by (auto simp: heap_fresh_def setAll_layer_heap)





lemma layers_okD:
  assumes "layers_ok st"
  obtains t f where "map_layers st = t # f # geoJsonLayers st"
    "kind_of st t = Some (TileLayer (tile_of (layerType st)))"
    "kind_of st f = Some (VectorLayer (vectorSource st))"
  using assms by (auto simp: layers_ok_def split: list.splits)

lemma map_const: "(\<And>x. x \<in> set xs \<Longrightarrow> f x = c) \<Longrightarrow> map f xs = replicate (length xs) c"
  by (induction xs) auto

lemma handleShowHideAll_fields:
  "showAllLayers (handleShowHideAll st) = (\<not> showAllLayers st)"
  "geoJsonLayers (handleShowHideAll st) = geoJsonLayers st"
  by (simp_all add: handleShowHideAll_def)

lemma handleShowHideAll_visible:
  assumes "\<forall>l\<in>set (geoJsonLayers st). layer_heap st l \<noteq> None"
  shows "map (getVisible (handleShowHideAll st)) (geoJsonLayers st)
           = replicate (length (geoJsonLayers st)) (\<not> showAllLayers st)"
proof (rule map_const)
  fix l
  assume "l \<in> set (geoJsonLayers st)"
  with assms obtain ly where "layer_heap st l = Some ly" by auto
  with \<open>l \<in> set (geoJsonLayers st)\<close>
  show "getVisible (handleShowHideAll st) l = (\<not> showAllLayers st)"
    by (simp add: getVisible_def handleShowHideAll_def setAll_layer_heap)
qed

subsection \<open>The sample states\<close>

lemma imported_eq:
  "imported =
     \<lparr>map_obj = Some \<lparr>layers = [8, 9, 7], interactions = []\<rparr>, layerType = osm,
      drawInteraction = None, vectorSource = 0, geoJsonLayers = [7], showAllLayers = True,
      layer_heap = ((\<lambda>_. None)
        (1 \<mapsto> \<lparr>kind = TileLayer OSM, visible = True, style = None\<rparr>,
         2 \<mapsto> \<lparr>kind = VectorLayer 0, visible = True, style = None\<rparr>,
         3 \<mapsto> \<lparr>kind = TileLayer OSM, visible = True, style = None\<rparr>,
         4 \<mapsto> \<lparr>kind = VectorLayer 0, visible = True, style = None\<rparr>,
         7 \<mapsto> \<lparr>kind = VectorLayer 6, visible = True, style = Some default_style\<rparr>,
         8 \<mapsto> \<lparr>kind = TileLayer OSM, visible = True, style = None\<rparr>,
         9 \<mapsto> \<lparr>kind = VectorLayer 0, visible = True, style = None\<rparr>)),
      source_heap = ((\<lambda>_. None)(0 \<mapsto> [], 6 \<mapsto> [5])),
      interaction_heap = (\<lambda>_. None),
      feature_heap = ((\<lambda>_. None)
        (5 \<mapsto> \<lparr>geometry_type_of = Polygon, coordinates = [(0, 0), (4, 0), (4, 3), (0, 0)],
               properties = [(''name'', ''A'')]\<rparr>)),
      next_ref = 10, pending = []\<rparr>"
  by (simp add: imported_def run_def mounted_eq handleGeoJSONImport_def run_callback_def
      remove_pending_def reader_onload_def sample_readFeatures_def
      sample_features_def new_feature_def new_source_def new_layer_def addLayer_def
      layer_effect_def clearLayers_def tile_of_def)

lemma imported_layer:
  "layer_heap imported 7 =
     Some \<lparr>kind = VectorLayer 6, visible = True, style = Some default_style\<rparr>"
  by (simp add: imported_eq)


lemma ol_style_updates:
  "(s::ol_style)\<lparr>stroke := a, fill := b\<rparr> = \<lparr>fill = b, stroke = a\<rparr>"
  "(s::ol_style)\<lparr>fill := b, stroke := a\<rparr> = \<lparr>fill = b, stroke = a\<rparr>"
  by (cases s, simp)+

lemma ol_fill_update: "(f::ol_fill)\<lparr>fill_color := c\<rparr> = \<lparr>fill_color = c\<rparr>"
  by (cases f) simp

section \<open>Style changes\<close>

text \<open>
  C3. The claim: a fill opacity outside \<open>[0, 1]\<close> and a stroke width not above 0 are
  rejected with \<^verbatim>\<open>InvalidStyleValue\<close> before any mutation. \<^verbatim>\<open>handleStyleChange\<close> has
  no check and no failure path. At the imported layer 7 the opacity \<^verbatim>\<open>2\<close> replaces the
  style's fill colour, and the width \<^verbatim>\<open>0\<close> is stored as the stroke width.
\<close>

theorem style_value_out_of_range_is_written:
  "getStyle (handleStyleChange 7 ''fillOpacity'' ''2'' imported) 7 \<noteq> getStyle imported 7 \<and>
   fillColor (handleStyleChange 7 ''fillOpacity'' ''2'' imported) 7
     = Str ''rgba(255, 255, 255, 2)'' \<and>
   strokeWidth (handleStyleChange 7 ''strokeWidth'' ''0'' imported) 7 = Str ''0''"
  by (simp add: handleStyleChange_def Let_def fillColor_def strokeWidth_def getStyle_def
      setStyle_def imported_layer default_style_def)

text \<open>
  C3, as the code has it: for every layer with a style object and every value, in range
  or not, the handler completes and writes the value: \<^verbatim>\<open>'fillOpacity'\<close> with \<open>v\<close> makes
  the fill colour \<^verbatim>\<open>rgba(255, 255, 255, v)\<close>, \<^verbatim>\<open>'strokeWidth'\<close> with \<open>w\<close> makes the stroke
  width \<open>w\<close>, and \<^verbatim>\<open>'color'\<close> with \<open>c\<close> makes the stroke colour \<open>c\<close>.
\<close>

theorem style_value_written_unchecked:
  assumes "layer_heap st l = Some ly" and "style ly = Some s"
  shows "fillColor (handleStyleChange l ''fillOpacity'' v st) l
           = Str (''rgba(255, 255, 255, '' @ v @ '')'') \<and>
         strokeWidth (handleStyleChange l ''strokeWidth'' w st) l = Str w \<and>
         strokeColor (handleStyleChange l ''color'' c st) l = Str c"
  using assms
  by (simp add: handleStyleChange_def Let_def fillColor_def strokeColor_def strokeWidth_def
      getStyle_def setStyle_def split: option.splits)

theorem style_value_written_unchecked_witness:
  "layer_heap imported 7 \<noteq> None \<and>
   fillColor (handleStyleChange 7 ''fillOpacity'' ''-3'' imported) 7
     = Str ''rgba(255, 255, 255, -3)'' \<and>
   strokeWidth (handleStyleChange 7 ''strokeWidth'' ''-1'' imported) 7 = Str ''-1'' \<and>
   strokeColor (handleStyleChange 7 ''color'' ''#ff0000'' imported) 7 = Str ''#ff0000''"
proof -
  have s: "style \<lparr>kind = VectorLayer 6, visible = True, style = Some default_style\<rparr>
      = Some default_style"
    by simp
  from style_value_written_unchecked [OF imported_layer s, of "''-3''" "''-1''" "''#ff0000''"]
  show ?thesis
    by (simp add: imported_layer)
qed

text \<open>
  C10. For every layer with a style object, the fill-opacity change sets the layer's fill
  colour to \<^verbatim>\<open>rgba(255, 255, 255, v)\<close> whatever the fill colour was before: the resulting
  style holds that fill and the stroke the layer had (a new, empty stroke where it had
  none), so the stroke colour and the stroke width are unchanged, and so are the
  layer's visibility, its source and every other layer.
\<close>

theorem fill_opacity_sets_white_fill:
  assumes "layer_heap st l = Some ly" and "style ly = Some s"
  shows "fillColor (handleStyleChange l ''fillOpacity'' v st) l
           = Str (''rgba(255, 255, 255, '' @ v @ '')'') \<and>
         strokeColor (handleStyleChange l ''fillOpacity'' v st) l = strokeColor st l \<and>
         strokeWidth (handleStyleChange l ''fillOpacity'' v st) l = strokeWidth st l \<and>
         getVisible (handleStyleChange l ''fillOpacity'' v st) l = getVisible st l \<and>
         kind_of (handleStyleChange l ''fillOpacity'' v st) l = kind_of st l \<and>
         layer_heap (handleStyleChange l ''fillOpacity'' v st) = (layer_heap st)
           (l \<mapsto> ly\<lparr>style := Some
              \<lparr>fill = Some \<lparr>fill_color = Str (''rgba(255, 255, 255, '' @ v @ '')'')\<rparr>,
               stroke = Some (case stroke s of None \<Rightarrow> new_Stroke | Some k \<Rightarrow> k)\<rparr>\<rparr>)"
  using assms
  by (simp add: handleStyleChange_def Let_def fillColor_def strokeColor_def strokeWidth_def
      getStyle_def setStyle_def getVisible_def kind_of_def new_Style_def new_Stroke_def
      new_Fill_def ol_style_updates ol_fill_update split: option.splits)

theorem fill_opacity_sets_white_fill_witness:
  "layer_heap imported 7 \<noteq> None \<and>
   fillColor imported 7 = Str ''rgba(255, 255, 255, 0.6)'' \<and>
   fillColor (handleStyleChange 7 ''fillOpacity'' ''0.3'' imported) 7
     = Str ''rgba(255, 255, 255, 0.3)'' \<and>
   strokeColor (handleStyleChange 7 ''fillOpacity'' ''0.3'' imported) 7 = Str ''#319FD3'' \<and>
   strokeWidth (handleStyleChange 7 ''fillOpacity'' ''0.3'' imported) 7 = Num 1"
proof -
  have s: "style \<lparr>kind = VectorLayer 6, visible = True, style = Some default_style\<rparr>
      = Some default_style"
    by simp
  from fill_opacity_sets_white_fill [OF imported_layer s, of "''0.3''"]
  show ?thesis
    by (simp add: imported_layer fillColor_def strokeColor_def strokeWidth_def getStyle_def
        default_style_def)
qed

section \<open>Editing interactions\<close>

text \<open>
  C1. The claim: after every call at most one editing interaction (Draw, Modify or
  Translate) is installed, every start operation detaching the active one first. The
  component tracks one interaction only, the Draw interaction in \<^verbatim>\<open>drawInteraction\<close>;
  \<^verbatim>\<open>handleModifyFeatures\<close> and \<^verbatim>\<open>handleTranslateFeatures\<close> call \<^verbatim>\<open>addInteraction\<close> and
  nothing else, and there is no stop operation. After the buttons Draw Point, Modify,
  Translate three interactions are installed together, and two clicks on Modify install
  two Modify interactions.
\<close>

theorem three_interactions_installed:
  "installed_kinds (run sample_readFeatures mounted [DrawButton Point, ModifyButton, TranslateButton])
     = [Some (Draw 0 Point), Some (Modify 0), Some (Translate [])] \<and>
   installed_kinds (run sample_readFeatures mounted [ModifyButton, ModifyButton])
     = [Some (Modify 0), Some (Modify 0)]"
  by (simp add: installed_kinds_def mounted_eq addDrawInteraction_def handleModifyFeatures_def
      handleTranslateFeatures_def new_interaction_def addInteraction_def or_unchanged_def
      getFeatures_def installed_def)

text \<open>
  C1, as the code has it: after every sequence of events the Draw interactions
  installed on the map are exactly the one tracked in \<^verbatim>\<open>drawInteraction\<close>, so at most
  one; and \<^verbatim>\<open>addDrawInteraction\<close> detaches the tracked Draw interaction before it
  installs its own, which is then the only one. The Modify and the Translate button
  each install one more interaction and detach none: the installed interactions are
  those of before, followed by the new one. And nothing detaches a Modify or Translate
  interaction: one that is installed stays installed, unchanged, through every later
  sequence of events (there is no stop operation among them).
\<close>

theorem draw_interaction_exclusive:
  assumes st: "st = run rf mounted evs"
  shows "draws st = tracked st \<and>
         length (draws st) \<le> 1 \<and>
         draws (step rf st (DrawButton ty)) = [next_ref st] \<and>
         installed (step rf st ModifyButton) = installed st @ [next_ref st] \<and>
         interaction_heap (step rf st ModifyButton) (next_ref st)
           = Some (Modify (vectorSource st)) \<and>
         installed (step rf st TranslateButton) = installed st @ [next_ref st] \<and>
         interaction_heap (step rf st TranslateButton) (next_ref st)
           = Some (Translate (getFeatures st (vectorSource st))) \<and>
         (\<forall>t\<in>set (installed st). \<not> is_Draw (interaction_heap st t) \<longrightarrow>
            t \<in> set (installed (run rf st evs')) \<and>
            interaction_heap (run rf st evs') t = interaction_heap st t)"
proof -
  have d: "inv_draw st" and a: "inv_alloc st"
    unfolding st by (rule reachable_inv)+
  from a obtain m where m: "map_obj st = Some m"
    by (auto simp: inv_alloc_def)
  have 1: "draws st = tracked st"
    using d by (simp add: inv_draw_def)
  then have 2: "length (draws st) \<le> 1"
    by (simp add: tracked_def split: option.splits)
  have "inv_draw (step rf st (DrawButton ty))"
    using a d by (rule inv_draw_step)
  then have "draws (step rf st (DrawButton ty)) = tracked (step rf st (DrawButton ty))"
    by (simp add: inv_draw_def)
  also have "\<dots> = [next_ref st]"
    by (simp add: addDrawInteraction_eq [OF m] tracked_def)
  finally have 3: "draws (step rf st (DrawButton ty)) = [next_ref st]" .
  have 4: "installed (step rf st ModifyButton) = installed st @ [next_ref st]"
    "interaction_heap (step rf st ModifyButton) (next_ref st) = Some (Modify (vectorSource st))"
    using m by (simp_all add: handleModifyFeatures_eq [OF m] or_unchanged_def installed_def)
  have 5: "installed (step rf st TranslateButton) = installed st @ [next_ref st]"
    "interaction_heap (step rf st TranslateButton) (next_ref st)
       = Some (Translate (getFeatures st (vectorSource st)))"
    using m by (simp_all add: handleTranslateFeatures_eq [OF m] or_unchanged_def installed_def)
  have k: "kept st (run rf st evs')"
    using inv_run [OF a d, of rf evs'] by simp
  have 6: "\<forall>t\<in>set (installed st). \<not> is_Draw (interaction_heap st t) \<longrightarrow>
            t \<in> set (installed (run rf st evs')) \<and>
            interaction_heap (run rf st evs') t = interaction_heap st t"
  proof (intro ballI impI)
    fix t
    assume t: "t \<in> set (installed st)" "\<not> is_Draw (interaction_heap st t)"
    from a t(1) have "t < next_ref st"
      by (simp add: inv_alloc_def)
    with k t show "t \<in> set (installed (run rf st evs')) \<and>
        interaction_heap (run rf st evs') t = interaction_heap st t"
      by (simp add: kept_def)
  qed
  show ?thesis
    by (intro conjI 1 2 3 4 5 6)
qed

theorem draw_interaction_exclusive_witness:
  "installed edited = [5, 6, 7] \<and>
   draws edited = [5] \<and>
   tracked edited = [5] \<and>
   draws (step sample_readFeatures edited (DrawButton LineString)) = [8] \<and>
   installed (step sample_readFeatures edited ModifyButton) = [5, 6, 7, 8] \<and>
   interaction_heap (step sample_readFeatures edited ModifyButton) 8 = Some (Modify 0) \<and>
   installed (step sample_readFeatures edited TranslateButton) = [5, 6, 7, 8] \<and>
   6 \<in> set (installed (run sample_readFeatures edited
          [DrawButton LineString, DrawEnd 8 [(1, 1), (2, 2)], ModifyButton])) \<and>
   interaction_heap (run sample_readFeatures edited
          [DrawButton LineString, DrawEnd 8 [(1, 1), (2, 2)], ModifyButton]) 6
     = Some (Modify 0) \<and>
   7 \<in> set (installed (run sample_readFeatures edited
          [DrawButton LineString, DrawEnd 8 [(1, 1), (2, 2)], ModifyButton])) \<and>
   interaction_heap (run sample_readFeatures edited
          [DrawButton LineString, DrawEnd 8 [(1, 1), (2, 2)], ModifyButton]) 7
     = Some (Translate [])"
proof -
  have e: "installed edited = [5, 6, 7]" "next_ref edited = 8" "vectorSource edited = 0"
    "interaction_heap edited 5 = Some (Draw 0 Point)"
    "interaction_heap edited 6 = Some (Modify 0)"
    "interaction_heap edited 7 = Some (Translate [])"
    "tracked edited = [5]"
    by (simp_all add: edited_def mounted_eq addDrawInteraction_def handleModifyFeatures_def
        handleTranslateFeatures_def new_interaction_def addInteraction_def or_unchanged_def
        getFeatures_def installed_def tracked_def removeInteraction_def)
  from draw_interaction_exclusive
    [where rf = sample_readFeatures and ty = LineString
       and evs' = "[DrawButton LineString, DrawEnd 8 [(1, 1), (2, 2)], ModifyButton]",
     OF edited_def]
  show ?thesis
    by (simp add: e is_Draw_def del: step.simps run_Cons)
qed

text \<open>
  C7. Draw is one-shot. In every reachable state with a Draw interaction \<open>d\<close> tracked
  (of whatever geometry type \<open>ty\<close>), \<open>d\<close> is installed and draws into the Geometry
  Store; when the user completes a shape, the new feature is appended to the Geometry
  Store, \<open>d\<close> is removed from the map, no Draw interaction is left installed and
  \<^verbatim>\<open>drawInteraction\<close> is \<^verbatim>\<open>null\<close> again. The removed interaction completes no
  further shape: another feature needs another \<^verbatim>\<open>addDrawInteraction\<close>.
\<close>

theorem draw_is_one_shot:
  assumes "drawInteraction (run rf mounted evs) = Some d"
  shows "\<exists>ty.
     interaction_heap (run rf mounted evs) d
       = Some (Draw (vectorSource (run rf mounted evs)) ty) \<and>
     d \<in> set (installed (run rf mounted evs)) \<and>
     getFeatures (step rf (run rf mounted evs) (DrawEnd d coords))
         (vectorSource (run rf mounted evs))
       = getFeatures (run rf mounted evs) (vectorSource (run rf mounted evs))
           @ [next_ref (run rf mounted evs)] \<and>
     feature_heap (step rf (run rf mounted evs) (DrawEnd d coords))
         (next_ref (run rf mounted evs))
       = Some \<lparr>geometry_type_of = ty, coordinates = coords, properties = []\<rparr> \<and>
     draws (step rf (run rf mounted evs) (DrawEnd d coords)) = [] \<and>
     d \<notin> set (installed (step rf (run rf mounted evs) (DrawEnd d coords))) \<and>
     drawInteraction (step rf (run rf mounted evs) (DrawEnd d coords)) = None \<and>
     step rf (step rf (run rf mounted evs) (DrawEnd d coords)) (DrawEnd d coords')
       = step rf (run rf mounted evs) (DrawEnd d coords)"
proof -
  let ?st = "run rf mounted evs"
  have a: "inv_alloc ?st" and i: "inv_draw ?st"
    by (rule reachable_inv)+
  from a i assms obtain m ty where m: "map_obj ?st = Some m"
    and r: "d \<in> set (interactions m)"
    and h: "interaction_heap ?st d = Some (Draw (vectorSource ?st) ty)"
    and n: "filter (\<lambda>i. is_Draw (interaction_heap ?st i)) (remove1 d (interactions m)) = []"
    by (rule tracked_draw)
  note eq = finishDrawing_eq [OF m r h]
  have 1: "d \<in> set (installed ?st)"
    using m r by (simp add: installed_def)
  have 2: "draws (finishDrawing d coords ?st) = []"
    using n by (simp add: eq draws_def)
  have 3: "d \<notin> set (installed (finishDrawing d coords ?st))"
  proof
    assume "d \<in> set (installed (finishDrawing d coords ?st))"
    then have "d \<in> set (remove1 d (interactions m))"
      by (simp add: eq)
    with h have
      "d \<in> set (filter (\<lambda>i. is_Draw (interaction_heap ?st i)) (remove1 d (interactions m)))"
      by simp
    with n show False by simp
  qed
  then have 4: "finishDrawing d coords' (finishDrawing d coords ?st) = finishDrawing d coords ?st"
    by (simp add: finishDrawing_noop)
  have "getFeatures (finishDrawing d coords ?st) (vectorSource ?st)
          = getFeatures ?st (vectorSource ?st) @ [next_ref ?st]"
    "feature_heap (finishDrawing d coords ?st) (next_ref ?st)
          = Some \<lparr>geometry_type_of = ty, coordinates = coords, properties = []\<rparr>"
    "drawInteraction (finishDrawing d coords ?st) = None"
    by (simp_all add: eq getFeatures_def)
  with h 1 2 3 4 show ?thesis by simp
qed

theorem draw_is_one_shot_witness:
  "drawInteraction (run sample_readFeatures mounted [DrawButton Polygon]) = Some 5 \<and>
   interaction_heap (run sample_readFeatures mounted [DrawButton Polygon]) 5
     = Some (Draw 0 Polygon) \<and>
   getFeatures (run sample_readFeatures mounted
       [DrawButton Polygon, DrawEnd 5 [(0, 0), (2, 0), (2, 2), (0, 0)]]) 0 = [6] \<and>
   feature_heap (run sample_readFeatures mounted
       [DrawButton Polygon, DrawEnd 5 [(0, 0), (2, 0), (2, 2), (0, 0)]]) 6
     = Some \<lparr>geometry_type_of = Polygon, coordinates = [(0, 0), (2, 0), (2, 2), (0, 0)],
             properties = []\<rparr> \<and>
   draws (run sample_readFeatures mounted
       [DrawButton Polygon, DrawEnd 5 [(0, 0), (2, 0), (2, 2), (0, 0)]]) = [] \<and>
   drawInteraction (run sample_readFeatures mounted
       [DrawButton Polygon, DrawEnd 5 [(0, 0), (2, 0), (2, 2), (0, 0)]]) = None \<and>
   run sample_readFeatures mounted
       [DrawButton Polygon, DrawEnd 5 [(0, 0), (2, 0), (2, 2), (0, 0)], DrawEnd 5 [(7, 7)]]
     = run sample_readFeatures mounted
       [DrawButton Polygon, DrawEnd 5 [(0, 0), (2, 0), (2, 2), (0, 0)]]"
proof -
  let ?st = "run sample_readFeatures mounted [DrawButton Polygon]"
  have h: "drawInteraction ?st = Some 5"
    by (simp add: eval_defs)
  have e: "interaction_heap ?st 5 = Some (Draw 0 Polygon)" "vectorSource ?st = 0"
    "next_ref ?st = 6" "getFeatures ?st 0 = []"
    by (simp_all add: eval_defs)
  from draw_is_one_shot [OF h, of "[(0, 0), (2, 0), (2, 2), (0, 0)]" "[(7, 7)]"]
  show ?thesis
    unfolding e using h by (simp add: e del: step.simps)
qed

text \<open>
  C8. Translate works on a snapshot. The Translate interaction created by
  \<^verbatim>\<open>handleTranslateFeatures\<close> in a reachable state \<open>st0\<close> holds the features the Geometry
  Store had in \<open>st0\<close>; whatever events follow, it stays installed with that same array,
  so only the features of the snapshot can be picked up through it. A feature drawn
  afterwards is in the Geometry Store but cannot be dragged through that interaction;
  it is in the array of a Translate interaction created after it was drawn.
\<close>

theorem translate_uses_snapshot:
  assumes st0: "st0 = run rf mounted evs"
    and st2: "st2 = run rf (step rf st0 TranslateButton) evs2"
  shows "interaction_heap st2 (next_ref st0)
           = Some (Translate (getFeatures st0 (vectorSource st0))) \<and>
         next_ref st0 \<in> set (installed st2) \<and>
         translatable st2 (next_ref st0) f = (f \<in> set (getFeatures st0 (vectorSource st0))) \<and>
         (drawInteraction st2 = Some d \<longrightarrow>
            next_ref st2 \<in> set (getFeatures (step rf st2 (DrawEnd d coords)) (vectorSource st0)) \<and>
            \<not> translatable (step rf st2 (DrawEnd d coords)) (next_ref st0) (next_ref st2) \<and>
            translatable (step rf (step rf st2 (DrawEnd d coords)) TranslateButton)
              (next_ref (step rf st2 (DrawEnd d coords))) (next_ref st2))"
proof -
  have a: "inv_alloc st0" and i: "inv_draw st0"
    unfolding st0 by (rule reachable_inv)+
  note s2 = translate_snapshot [OF a i, of rf evs2, folded st2]
  then have t2: "translatable st2 (next_ref st0) f = (f \<in> set (getFeatures st0 (vectorSource st0)))"
    for f
    by (simp add: translatable_def)
  have draw: "next_ref st2 \<in> set (getFeatures (step rf st2 (DrawEnd d coords)) (vectorSource st0)) \<and>
            \<not> translatable (step rf st2 (DrawEnd d coords)) (next_ref st0) (next_ref st2) \<and>
            translatable (step rf (step rf st2 (DrawEnd d coords)) TranslateButton)
              (next_ref (step rf st2 (DrawEnd d coords))) (next_ref st2)"
    if tr: "drawInteraction st2 = Some d"
  proof -
    let ?st3 = "step rf st2 (DrawEnd d coords)"
    from s2 have a2: "inv_alloc st2" and i2: "inv_draw st2"
      and v2: "vectorSource st2 = vectorSource st0"
      and n2: "Suc (next_ref st0) \<le> next_ref st2"
      by simp_all
    from a2 i2 tr obtain m ty where m: "map_obj st2 = Some m"
      and r: "d \<in> set (interactions m)"
      and h: "interaction_heap st2 d = Some (Draw (vectorSource st2) ty)"
      by (rule tracked_draw)
    have 1: "next_ref st2 \<in> set (getFeatures ?st3 (vectorSource st0))"
      by (simp add: finishDrawing_eq [OF m r h] getFeatures_def v2)
    have "?st3 = run rf (step rf st0 TranslateButton) (evs2 @ [DrawEnd d coords])"
      by (simp add: run_append st2)
    with translate_snapshot [OF a i, of rf "evs2 @ [DrawEnd d coords]"]
    have s3: "interaction_heap ?st3 (next_ref st0)
           = Some (Translate (getFeatures st0 (vectorSource st0)))"
      and a3: "inv_alloc ?st3" and v3: "vectorSource ?st3 = vectorSource st0"
      by simp_all
    from a have "\<forall>f\<in>set (getFeatures st0 (vectorSource st0)). f < next_ref st0"
      by (simp add: inv_alloc_def)
    with n2 have "next_ref st2 \<notin> set (getFeatures st0 (vectorSource st0))"
      by auto
    with s3 have 2: "\<not> translatable ?st3 (next_ref st0) (next_ref st2)"
      by (simp add: translatable_def)
    from a3 obtain m3 where m3: "map_obj ?st3 = Some m3"
      by (auto simp: inv_alloc_def)
    have 3: "translatable (step rf ?st3 TranslateButton) (next_ref ?st3) (next_ref st2)"
      using 1 v3
      by (simp add: handleTranslateFeatures_eq [OF m3] or_unchanged_def translatable_def
          del: step.simps(3))
    from 1 2 3 show ?thesis by simp
  qed
  from s2 t2 draw show ?thesis by simp
qed

theorem translate_uses_snapshot_witness:
  "drawInteraction (run sample_readFeatures mounted [TranslateButton, DrawButton Point]) = Some 6 \<and>
   interaction_heap (run sample_readFeatures mounted [TranslateButton, DrawButton Point]) 5
     = Some (Translate []) \<and>
   7 \<in> set (getFeatures (run sample_readFeatures mounted
       [TranslateButton, DrawButton Point, DrawEnd 6 [(1, 1)]]) 0) \<and>
   \<not> translatable (run sample_readFeatures mounted
       [TranslateButton, DrawButton Point, DrawEnd 6 [(1, 1)]]) 5 7 \<and>
   translatable (run sample_readFeatures mounted
       [TranslateButton, DrawButton Point, DrawEnd 6 [(1, 1)], TranslateButton]) 8 7"
proof -
  let ?st2 = "run sample_readFeatures (step sample_readFeatures mounted TranslateButton)
      [DrawButton Point]"
  have 0: "mounted = run sample_readFeatures mounted []"
    by simp
  have e: "next_ref mounted = 5" "vectorSource mounted = 0" "getFeatures mounted 0 = []"
    "next_ref ?st2 = 7" "next_ref (step sample_readFeatures ?st2 (DrawEnd 6 [(1, 1)])) = 8"
    by (simp_all add: eval_defs)
  have h: "drawInteraction ?st2 = Some 6"
    by (simp add: eval_defs)
  from translate_uses_snapshot [OF 0 refl, of "[DrawButton Point]" 7 6 "[(1, 1)]"]
  show ?thesis
    unfolding e using h by (simp add: e del: step.simps)
qed

section \<open>Layers\<close>

text \<open>
  C9. Switching the basemap keeps the vector state. After a basemap selection in any
  reachable state the map holds the tile layer of the selected basemap, then a freehand
  layer backed by the same vector source, then the imported layers in their registry
  order; the sources, the features, the registry and the imported layer objects (with
  their visibility and style) are as before, and so are the installed interactions.
\<close>

theorem basemap_switch_keeps_vector_layers:
  assumes st: "st = run rf mounted evs"
  shows "(\<exists>t f.
            map_layers (step rf st (LayerChange v)) = t # f # geoJsonLayers st \<and>
            kind_of (step rf st (LayerChange v)) t = Some (TileLayer (tile_of v)) \<and>
            kind_of (step rf st (LayerChange v)) f = Some (VectorLayer (vectorSource st))) \<and>
         layerType (step rf st (LayerChange v)) = v \<and>
         vectorSource (step rf st (LayerChange v)) = vectorSource st \<and>
         source_heap (step rf st (LayerChange v)) = source_heap st \<and>
         feature_heap (step rf st (LayerChange v)) = feature_heap st \<and>
         geoJsonLayers (step rf st (LayerChange v)) = geoJsonLayers st \<and>
         map (layer_heap (step rf st (LayerChange v))) (geoJsonLayers st)
           = map (layer_heap st) (geoJsonLayers st) \<and>
         installed (step rf st (LayerChange v)) = installed st"
proof -
  let ?st' = "step rf st (LayerChange v)"
  have a: "inv_alloc st" and "inv_alloc ?st'"
    unfolding st by (rule reachable_inv inv_alloc_step)+
  have "inv_layers ?st'"
    unfolding st by (rule inv_layers_step reachable_inv reachable_layers)+
  then have "layers_ok ?st'"
    by (simp add: inv_layers_def)
  then obtain t f where "map_layers ?st' = t # f # geoJsonLayers ?st'"
    "kind_of ?st' t = Some (TileLayer (tile_of (layerType ?st')))"
    "kind_of ?st' f = Some (VectorLayer (vectorSource ?st'))"
    by (rule layers_okD)
  moreover have f: "layerType ?st' = v" "vectorSource ?st' = vectorSource st"
    "source_heap ?st' = source_heap st" "feature_heap ?st' = feature_heap st"
    "geoJsonLayers ?st' = geoJsonLayers st" "installed ?st' = installed st"
    by (simp_all add: handleLayerChange_def)
  moreover have "map (layer_heap ?st') (geoJsonLayers st) = map (layer_heap st) (geoJsonLayers st)"
  proof (cases "v = layerType st")
    case True
    then show ?thesis by simp
  next
    case False
    from a obtain m where "map_obj (handleLayerChange v st) = Some m"
      by (auto simp: inv_alloc_def handleLayerChange_def)
    from layer_effect_layers(5) [OF this]
    have "layer_heap (layer_effect (handleLayerChange v st)) l = layer_heap st l"
      if "l < next_ref st" for l
      using that by (simp add: handleLayerChange_def)
    moreover from a have "\<forall>l\<in>set (geoJsonLayers st). l < next_ref st"
      by (simp add: inv_alloc_def)
    ultimately show ?thesis using False by simp
  qed
  ultimately show ?thesis
    by (simp del: step.simps)
qed

theorem basemap_switch_keeps_vector_layers_witness:
  "map_layers (step sample_readFeatures imported (LayerChange satellite)) = [10, 11, 7] \<and>
   kind_of (step sample_readFeatures imported (LayerChange satellite)) 10
     = Some (TileLayer (tile_of satellite)) \<and>
   kind_of (step sample_readFeatures imported (LayerChange satellite)) 11
     = Some (VectorLayer 0) \<and>
   source_heap (step sample_readFeatures imported (LayerChange satellite)) = source_heap imported \<and>
   map (layer_heap (step sample_readFeatures imported (LayerChange satellite))) [7]
     = map (layer_heap imported) [7]"
proof -
  have e: "geoJsonLayers imported = [7]" "vectorSource imported = 0"
    by (simp_all add: imported_eq)
  have l: "map_layers (step sample_readFeatures imported (LayerChange satellite)) = [10, 11, 7]"
    by (simp add: imported_eq handleLayerChange_def layer_effect_def new_layer_def addLayer_def
        clearLayers_def map_layers_def)
  from basemap_switch_keeps_vector_layers
    [of imported sample_readFeatures "[FilePicked (Some ''A''), FileLoaded 0]" satellite]
  show ?thesis
    unfolding e using l by (auto simp: imported_def simp del: step.simps)
qed

text \<open>
  C5. The freehand layer is permanent. In every reachable state the map holds the
  basemap layer, then the freehand layer (a vector layer backed by the Geometry Store,
  which exists), then the imported layers of \<^verbatim>\<open>geoJsonLayers\<close>. The freehand layer is
  not among the imported layers, which are all backed by sources of their own, and the
  Delete button exists for the imported layers only (lines 295 to 303;
  \<^verbatim>\<open>handleLayerAction\<close> has no test of its own): a removal aimed at the freehand layer,
  or at any layer backed by the Geometry Store, leaves the state as it is. After every
  further sequence of events the map again holds a freehand layer backed by the same
  Geometry Store, in second place. An imported layer \<open>l\<close> is removable: its deletion
  takes \<open>l\<close> out of \<^verbatim>\<open>geoJsonLayers\<close> and off the map, keeps the other imported
  layers in order, the sources and the features, and the freehand layer stays.
\<close>

theorem freehand_layer_always_on_map:
  assumes st: "st = run rf mounted evs"
  shows "(\<exists>t f. map_layers st = t # f # geoJsonLayers st \<and>
                kind_of st f = Some (VectorLayer (vectorSource st)) \<and>
                f \<notin> set (geoJsonLayers st) \<and>
                step rf st (LayerAction ''delete'' f) = st) \<and>
         source_heap st (vectorSource st) \<noteq> None \<and>
         (\<forall>g. kind_of st g = Some (VectorLayer (vectorSource st)) \<longrightarrow>
              g \<notin> set (geoJsonLayers st) \<and> step rf st (LayerAction ''delete'' g) = st) \<and>
         (\<exists>t f. map_layers (run rf st evs') = t # f # geoJsonLayers (run rf st evs') \<and>
                kind_of (run rf st evs') f = Some (VectorLayer (vectorSource st)) \<and>
                f \<notin> set (geoJsonLayers (run rf st evs'))) \<and>
         source_heap (run rf st evs') (vectorSource st) \<noteq> None \<and>
         (l \<in> set (geoJsonLayers st) \<longrightarrow>
            geoJsonLayers (step rf st (LayerAction ''delete'' l))
              = filter (\<lambda>k. k \<noteq> l) (geoJsonLayers st) \<and>
            l \<notin> set (map_layers (step rf st (LayerAction ''delete'' l))) \<and>
            (\<exists>t f. map_layers (step rf st (LayerAction ''delete'' l))
                     = t # f # filter (\<lambda>k. k \<noteq> l) (geoJsonLayers st) \<and>
                   kind_of (step rf st (LayerAction ''delete'' l)) f
                     = Some (VectorLayer (vectorSource st))) \<and>
            source_heap (step rf st (LayerAction ''delete'' l)) = source_heap st \<and>
            feature_heap (step rf st (LayerAction ''delete'' l)) = feature_heap st)"
proof -
  let ?st' = "step rf st (LayerAction ''delete'' l)"
  let ?r = "run rf st evs'"
  have a: "inv_alloc st" and d: "inv_draw st"
    unfolding st by (rule reachable_inv)+
  then obtain m where m: "map_obj st = Some m"
    by (auto simp: inv_alloc_def)
  have i: "inv_layers st"
    unfolding st by (rule reachable_layers)
  then have "layers_ok st"
    by (simp add: inv_layers_def)
  then obtain t f where 1: "map_layers st = t # f # geoJsonLayers st"
    "kind_of st f = Some (VectorLayer (vectorSource st))"
    by (rule layers_okD)
  have n: "g \<notin> set (geoJsonLayers st)"
    if "kind_of st g = Some (VectorLayer (vectorSource st))" for g
    using i that by (auto simp: inv_layers_def is_imported_def)
  have 2: "step rf st (LayerAction ''delete'' g) = st"
    if "kind_of st g = Some (VectorLayer (vectorSource st))" for g
    using n [OF that] by simp
  have A: "\<exists>t f. map_layers st = t # f # geoJsonLayers st \<and>
                kind_of st f = Some (VectorLayer (vectorSource st)) \<and>
                f \<notin> set (geoJsonLayers st) \<and>
                step rf st (LayerAction ''delete'' f) = st"
    using 1 n [OF 1(2)] 2 [OF 1(2)] by (simp del: step.simps)
  have B: "source_heap st (vectorSource st) \<noteq> None"
    using a by (simp add: inv_alloc_def)
  have C: "\<forall>g. kind_of st g = Some (VectorLayer (vectorSource st)) \<longrightarrow>
              g \<notin> set (geoJsonLayers st) \<and> step rf st (LayerAction ''delete'' g) = st"
    using n 2 by (simp del: step.simps)
  have r: "?r = run rf mounted (evs @ evs')"
    by (simp add: st run_append)
  have ir: "inv_layers ?r" and ar: "inv_alloc ?r"
    unfolding r by (rule reachable_layers reachable_inv)+
  have "kept st ?r"
    using inv_run [OF a d, of rf evs'] by simp
  then have v: "vectorSource ?r = vectorSource st"
    by (simp add: kept_def)
  from ir have "layers_ok ?r"
    by (simp add: inv_layers_def)
  then obtain t' f' where 3: "map_layers ?r = t' # f' # geoJsonLayers ?r"
    "kind_of ?r f' = Some (VectorLayer (vectorSource ?r))"
    by (rule layers_okD)
  have "f' \<notin> set (geoJsonLayers ?r)"
    using ir 3(2) by (auto simp: inv_layers_def is_imported_def)
  with 3 v have D: "\<exists>t f. map_layers ?r = t # f # geoJsonLayers ?r \<and>
                kind_of ?r f = Some (VectorLayer (vectorSource st)) \<and>
                f \<notin> set (geoJsonLayers ?r)"
    by simp
  have E: "source_heap ?r (vectorSource st) \<noteq> None"
    using ar v by (simp add: inv_alloc_def)
  have F: "l \<in> set (geoJsonLayers st) \<longrightarrow>
            geoJsonLayers ?st' = filter (\<lambda>k. k \<noteq> l) (geoJsonLayers st) \<and>
            l \<notin> set (map_layers ?st') \<and>
            (\<exists>t f. map_layers ?st' = t # f # filter (\<lambda>k. k \<noteq> l) (geoJsonLayers st) \<and>
                   kind_of ?st' f = Some (VectorLayer (vectorSource st))) \<and>
            source_heap ?st' = source_heap st \<and>
            feature_heap ?st' = feature_heap st"
  proof
    assume l: "l \<in> set (geoJsonLayers st)"
    have eq: "?st' = layer_effect (st\<lparr>map_obj := Some (removeLayer l m),
        geoJsonLayers := filter (\<lambda>k. k \<noteq> l) (geoJsonLayers st)\<rparr>)"
      using l by (simp add: handleLayerAction_def m)
    have m1: "map_obj (st\<lparr>map_obj := Some (removeLayer l m),
        geoJsonLayers := filter (\<lambda>k. k \<noteq> l) (geoJsonLayers st)\<rparr>) = Some (removeLayer l m)"
      by simp
    have 4: "map_layers ?st'
        = next_ref st # Suc (next_ref st) # filter (\<lambda>k. k \<noteq> l) (geoJsonLayers st)"
      "kind_of ?st' (Suc (next_ref st)) = Some (VectorLayer (vectorSource st))"
      unfolding eq using layer_effect_layers(1,3) [OF m1] by simp_all
    have 5: "geoJsonLayers ?st' = filter (\<lambda>k. k \<noteq> l) (geoJsonLayers st)"
      "source_heap ?st' = source_heap st" "feature_heap ?st' = feature_heap st"
      unfolding eq by simp_all
    from a l have "l < next_ref st"
      by (simp add: inv_alloc_def)
    then have 6: "l \<notin> set (map_layers ?st')"
      by (simp add: 4 del: step.simps)
    from 4 5 6 show "geoJsonLayers ?st' = filter (\<lambda>k. k \<noteq> l) (geoJsonLayers st) \<and>
            l \<notin> set (map_layers ?st') \<and>
            (\<exists>t f. map_layers ?st' = t # f # filter (\<lambda>k. k \<noteq> l) (geoJsonLayers st) \<and>
                   kind_of ?st' f = Some (VectorLayer (vectorSource st))) \<and>
            source_heap ?st' = source_heap st \<and>
            feature_heap ?st' = feature_heap st"
      by (simp del: step.simps)
  qed
  show ?thesis
    by (intro conjI A B C D E F)
qed

theorem freehand_layer_always_on_map_witness:
  "map_layers imported = [8, 9, 7] \<and> kind_of imported 9 = Some (VectorLayer 0) \<and>
   geoJsonLayers imported = [7] \<and>
   step sample_readFeatures imported (LayerAction ''delete'' 9) = imported \<and>
   source_heap imported 0 \<noteq> None \<and>
   source_heap (run sample_readFeatures imported [LayerChange satellite, DrawButton Point]) 0
     \<noteq> None \<and>
   map_layers (step sample_readFeatures imported (LayerAction ''delete'' 7)) = [10, 11] \<and>
   kind_of (step sample_readFeatures imported (LayerAction ''delete'' 7)) 11
     = Some (VectorLayer 0) \<and>
   geoJsonLayers (step sample_readFeatures imported (LayerAction ''delete'' 7)) = []"
proof -
  have e: "geoJsonLayers imported = [7]" "vectorSource imported = 0" "next_ref imported = 10"
    "map_layers imported = [8, 9, 7]" "kind_of imported 9 = Some (VectorLayer 0)"
    by (simp_all add: imported_eq map_layers_def kind_of_def)
  have l: "map_layers (step sample_readFeatures imported (LayerAction ''delete'' 7)) = [10, 11]"
    by (simp add: imported_eq handleLayerAction_def removeLayer_def layer_effect_def
        new_layer_def addLayer_def clearLayers_def map_layers_def)
  from freehand_layer_always_on_map
    [where rf = sample_readFeatures and l = 7
       and evs' = "[LayerChange satellite, DrawButton Point]", OF imported_def]
  show ?thesis
    unfolding e using l e by (auto simp del: step.simps run_Cons)
qed




text \<open>
  C4. The claim: two calls of the show/hide-all toggle restore every imported layer's
  visibility. With the flag on and the imported layer 7 hidden by its own button, two
  toggles leave the layer visible.
\<close>

theorem show_hide_all_twice_changes_visibility:
  "showAllLayers (run sample_readFeatures imported [LayerAction ''showHide'' 7]) = True \<and>
   getVisible (run sample_readFeatures imported [LayerAction ''showHide'' 7]) 7 = False \<and>
   getVisible (run sample_readFeatures imported
     [LayerAction ''showHide'' 7, ShowHideAll, ShowHideAll]) 7 = True"
  by (simp add: imported_eq handleLayerAction_def handleShowHideAll_def getVisible_def
      setVisible_def)

text \<open>
  C4, as the code has it: one call flips the flag and sets every imported layer's
  visibility to the negation of the flag's value before the call; two calls in
  succession restore the flag and set every imported layer's visibility to the flag's
  original value (so a layer gets its visibility back when it agreed with the flag).
\<close>

theorem show_hide_all_broadcasts:
  assumes st: "st = run rf mounted evs"
  shows "showAllLayers (step rf st ShowHideAll) = (\<not> showAllLayers st) \<and>
         geoJsonLayers (step rf st ShowHideAll) = geoJsonLayers st \<and>
         map (getVisible (step rf st ShowHideAll)) (geoJsonLayers st)
           = replicate (length (geoJsonLayers st)) (\<not> showAllLayers st) \<and>
         showAllLayers (step rf (step rf st ShowHideAll) ShowHideAll) = showAllLayers st \<and>
         map (getVisible (step rf (step rf st ShowHideAll) ShowHideAll)) (geoJsonLayers st)
           = replicate (length (geoJsonLayers st)) (showAllLayers st)"
proof -
  let ?st1 = "handleShowHideAll st"
  have "inv_layers st" "inv_layers (step rf st ShowHideAll)"
    unfolding st by (rule reachable_layers inv_layers_step reachable_inv)+
  then have "\<forall>l\<in>set (geoJsonLayers st). is_imported st l"
    and "\<forall>l\<in>set (geoJsonLayers ?st1). is_imported ?st1 l"
    by (simp_all add: inv_layers_def)
  then have h: "\<forall>l\<in>set (geoJsonLayers st). layer_heap st l \<noteq> None"
    and h1: "\<forall>l\<in>set (geoJsonLayers ?st1). layer_heap ?st1 l \<noteq> None"
    using is_imported_heap by blast+
  from handleShowHideAll_visible [OF h] handleShowHideAll_visible [OF h1]
  show ?thesis by (simp add: handleShowHideAll_fields)
qed

theorem show_hide_all_broadcasts_witness:
  "geoJsonLayers imported = [7] \<and> showAllLayers imported = True \<and>
   getVisible imported 7 = True \<and>
   showAllLayers (step sample_readFeatures imported ShowHideAll) = False \<and>
   map (getVisible (step sample_readFeatures imported ShowHideAll)) [7] = [False] \<and>
   showAllLayers (step sample_readFeatures (step sample_readFeatures imported ShowHideAll)
     ShowHideAll) = True \<and>
   map (getVisible (step sample_readFeatures (step sample_readFeatures imported ShowHideAll)
     ShowHideAll)) [7] = [True]"
proof -
  have e: "geoJsonLayers imported = [7]" "showAllLayers imported = True"
    "getVisible imported 7 = True"
    by (simp_all add: imported_eq getVisible_def)
  from show_hide_all_broadcasts
    [of imported sample_readFeatures "[FilePicked (Some ''A''), FileLoaded 0]"]
  show ?thesis
    unfolding e using e by (simp add: imported_def del: step.simps)
qed

end
